theory Spec2Isabelle
  imports Complex_Main
begin

section \<open>Python values and exceptions\<close>

text \<open>
  The plugin \<^verbatim>\<open>anthropic_api_pipe.py\<close> works on what \<^verbatim>\<open>json.loads\<close> returns and on the
  request dictionaries of the host. Both are JSON-shaped Python values: \<^verbatim>\<open>None\<close>, a
  \<^verbatim>\<open>bool\<close>, an \<^verbatim>\<open>int\<close>, a finite \<^verbatim>\<open>float\<close> (by its exact value), a \<^verbatim>\<open>str\<close>, a \<^verbatim>\<open>list\<close>
  or a \<^verbatim>\<open>dict\<close> with string keys. A dict is an association list with distinct keys.
  Strings and byte strings are lists of bytes; the strings the statements below talk about
  (event kinds, model names, base64 text) are ASCII.
\<close>

datatype json =
    JNull
  | JBool bool
  | JInt int
  | JFloat rat
  | JStr string
  | JArr "json list"
  | JObj "(string \<times> json) list"

text \<open>The exceptions the modelled code can raise or let through.\<close>

datatype exn =
    KeyError string
  | TypeError
  | AttributeError
  | UnpackError
  | IntLiteralError string
  | TotalImageSizeError rat
  | TooManyImagesError nat
  | JSONDecodeError
  | UnicodeDecodeError
  | TimeoutError
  | ClientError string
  | OverflowError
  | FloatLiteralError string
  | OtherError string

text \<open>Truth value testing (\<^verbatim>\<open>if x:\<close>).\<close>

fun truthy :: "json \<Rightarrow> bool" where
  "truthy JNull = False"
| "truthy (JBool b) = b"
| "truthy (JInt n) = (n \<noteq> 0)"
| "truthy (JFloat r) = (r \<noteq> 0)"
| "truthy (JStr s) = (s \<noteq> [])"
| "truthy (JArr xs) = (xs \<noteq> [])"
| "truthy (JObj kvs) = (kvs \<noteq> [])"

text \<open>
  \<^verbatim>\<open>d.get(k, default)\<close>: only a dict has the method, every other value raises
  AttributeError. \<^verbatim>\<open>d[k]\<close> with a string key: KeyError on a dict without the key,
  TypeError on every value that is not a dict.
\<close>

definition dict_get :: "json \<Rightarrow> string \<Rightarrow> json \<Rightarrow> exn + json" where
  "dict_get d k dflt =
     (case d of
        JObj kvs \<Rightarrow> Inr (case map_of kvs k of None \<Rightarrow> dflt | Some v \<Rightarrow> v)
      | _ \<Rightarrow> Inl AttributeError)"

definition subscript :: "json \<Rightarrow> string \<Rightarrow> exn + json" where
  "subscript d k =
     (case d of
        JObj kvs \<Rightarrow> (case map_of kvs k of None \<Rightarrow> Inl (KeyError k) | Some v \<Rightarrow> Inr v)
      | _ \<Rightarrow> Inl TypeError)"

definition startswith :: "string \<Rightarrow> string \<Rightarrow> bool" where
  "startswith s p = (take (length p) s = p)"

text \<open>Decimal text of an integer, as \<^verbatim>\<open>str\<close> and an f-string print it.\<close>

definition digit_char :: "nat \<Rightarrow> char" where
  "digit_char d = ''0123456789'' ! d"

fun show_nat :: "nat \<Rightarrow> string" where
  "show_nat n = (if n < 10 then [digit_char n] else show_nat (n div 10) @ [digit_char (n mod 10)])"

declare show_nat.simps [simp del]

definition show_int :: "int \<Rightarrow> string" where
  "show_int i = (if i < 0 then CHR ''-'' # show_nat (nat (- i)) else show_nat (nat i))"

text \<open>
  What the program takes from its interpreter and its host:
  \<^item> \<open>json_loads\<close> is \<^verbatim>\<open>json.loads\<close> on a byte string: the value, or the exception
    raised (JSONDecodeError for text that is not JSON, UnicodeDecodeError for bytes
    that are not text);
  \<^item> \<open>py_repr\<close> is the text \<^verbatim>\<open>str()\<close> gives a float, a list or a dict;
  \<^item> \<open>time_now\<close> gives the successive readings of \<^verbatim>\<open>int(time.time())\<close>;
  \<^item> \<open>py_int\<close> is \<^verbatim>\<open>int()\<close> on a string, \<open>None\<close> where it raises ValueError;
  \<^item> \<open>py_float\<close> is \<^verbatim>\<open>float()\<close> on a value, or the exception it raises;
  \<^item> \<open>sleep\<close> is \<^verbatim>\<open>await asyncio.sleep(d)\<close> for an integer \<open>d\<close>: \<open>None\<close> when it
    returns, or the exception it raises (OverflowError for a delay too large for a
    float);
  \<^item> \<open>pop_system_message\<close> is the host's function of that name
    (\<^verbatim>\<open>open_webui.utils.misc\<close>): the system message or \<^verbatim>\<open>None\<close>, and the other
    messages;
  \<^item> \<open>process_messages b ms\<close> is \<^verbatim>\<open>self._process_messages(ms)\<close> called while
    \<^verbatim>\<open>body["messages"]\<close> is \<open>b\<close>: the list it returns and \<^verbatim>\<open>body["messages"]\<close> as the
    call leaves it, or the exception it raises. The statements below hold whatever it
    does.
\<close>

record env =
  json_loads :: "string \<Rightarrow> exn + json"
  py_repr :: "json \<Rightarrow> string"
  time_now :: "nat \<Rightarrow> int"
  py_int :: "string \<Rightarrow> int option"
  py_float :: "json \<Rightarrow> exn + json"
  sleep :: "int \<Rightarrow> exn option"
  pop_system_message :: "json \<Rightarrow> exn + json \<times> json list"
  process_messages :: "json \<Rightarrow> json list \<Rightarrow> exn + json \<times> json"

text \<open>The text an f-string puts in for \<^verbatim>\<open>{v}\<close>.\<close>

definition py_str :: "env \<Rightarrow> json \<Rightarrow> string" where
  "py_str E v =
     (case v of
        JNull \<Rightarrow> ''None''
      | JBool b \<Rightarrow> (if b then ''True'' else ''False'')
      | JInt n \<Rightarrow> show_int n
      | JStr s \<Rightarrow> s
      | _ \<Rightarrow> py_repr E v)"

section \<open>The streaming translator\<close>

text \<open>
  \<^verbatim>\<open>_stream_with_ui\<close> keeps four local variables over the lines of one response; the
  model adds the number of clock readings taken so far. \<open>current_tool_use\<close> is the
  dict \<^verbatim>\<open>{"id", "name", "index"}\<close> or \<^verbatim>\<open>None\<close>.
\<close>

record tool_use =
  tu_id :: json
  tu_name :: json
  tu_index :: nat

record stream_state =
  current_tool_use :: "tool_use option"
  tool_use_input_json :: string
  tool_call_index :: nat
  has_tool_calls :: bool
  clock_reads :: nat

definition init_state :: stream_state where
  "init_state =
     \<lparr>current_tool_use = None, tool_use_input_json = [], tool_call_index = 0,
      has_tool_calls = False, clock_reads = 0\<rparr>"

text \<open>
  What the generator yields. \<open>Chunk c\<close> is the string
  \<^verbatim>\<open>"data: " + json.dumps(c) + "\n\n"\<close>, \<open>Done\<close> is \<^verbatim>\<open>"data: [DONE]\n\n"\<close>
  (\<^verbatim>\<open>json.dumps\<close> of a dict starts with a brace, so the two never coincide), and
  \<open>ErrorLine f r\<close> is one of the three error messages, \<open>r\<close> the request id appended
  to it when there is one.
\<close>

datatype failure =
    HttpStatus nat string
  | TimedOut
  | StreamError exn

datatype emitted =
    Chunk json
  | Done
  | ErrorLine failure "string option"

text \<open>
  \<^verbatim>\<open>_create_openai_tool_call_chunk(model, tool_calls, content, finish_reason)\<close>, an
  absent argument being \<^verbatim>\<open>None\<close>. It reads the clock twice, starting at reading \<open>n\<close>.
\<close>

definition create_openai_tool_call_chunk ::
  "env \<Rightarrow> nat \<Rightarrow> json \<Rightarrow> json \<Rightarrow> json \<Rightarrow> json \<Rightarrow> json" where
  "create_openai_tool_call_chunk E n model tool_calls content finish_reason =
     JObj [
       (''id'', JStr (''chatcmpl-'' @ show_int (time_now E n))),
       (''object'', JStr ''chat.completion.chunk''),
       (''created'', JInt (time_now E (n + 1))),
       (''model'', model),
       (''choices'', JArr [JObj [
          (''index'', JInt 0),
          (''delta'', JObj
             ((if truthy tool_calls then [(''tool_calls'', tool_calls)] else []) @
              (if truthy content then [(''content'', content)] else []))),
          (''finish_reason'', finish_reason)]])]"

text \<open>The chunk the \<^verbatim>\<open>thinking_delta\<close> branch builds in place: one clock reading.\<close>

definition reasoning_chunk :: "env \<Rightarrow> nat \<Rightarrow> json \<Rightarrow> json \<Rightarrow> json" where
  "reasoning_chunk E n model thinking_text =
     JObj [
       (''id'', JStr (''chatcmpl-'' @ show_int (time_now E n))),
       (''object'', JStr ''chat.completion.chunk''),
       (''model'', model),
       (''choices'', JArr [JObj [
          (''index'', JInt 0),
          (''delta'', JObj [(''reasoning_content'', thinking_text)]),
          (''finish_reason'', JNull)]])]"

definition initial_tool_calls :: "nat \<Rightarrow> json \<Rightarrow> json \<Rightarrow> json" where
  "initial_tool_calls idx ident name =
     JArr [JObj [
       (''index'', JInt (int idx)),
       (''id'', ident),
       (''type'', JStr ''function''),
       (''function'', JObj [(''name'', name), (''arguments'', JStr [])])]]"

definition argument_tool_calls :: "nat \<Rightarrow> json \<Rightarrow> json" where
  "argument_tool_calls idx partial_json =
     JArr [JObj [
       (''index'', JInt (int idx)),
       (''function'', JObj [(''arguments'', partial_json)])]]"

definition cite_text :: "env \<Rightarrow> json \<Rightarrow> json \<Rightarrow> string" where
  "cite_text E doc_index doc_title =
     (if truthy doc_title
      then '' ['' @ py_str E doc_index @ '': '' @ py_str E doc_title @ '']''
      else '' ['' @ py_str E doc_index @ '']'')"

text \<open>
  One pass of the loop body after \<^verbatim>\<open>json.loads\<close> has returned \<open>data\<close>: the new state
  and what is yielded, or \<open>Break\<close> when the loop is left, or the exception raised.
  No branch yields and then raises.
\<close>

datatype step = Next stream_state "emitted list" | Break "emitted list"

definition on_block_start :: "env \<Rightarrow> json \<Rightarrow> stream_state \<Rightarrow> json \<Rightarrow> exn + step" where
  "on_block_start E model st data =
     (case dict_get data ''content_block'' (JObj []) of
        Inl e \<Rightarrow> Inl e
      | Inr content_block \<Rightarrow>
          (case dict_get content_block ''type'' JNull of
             Inl e \<Rightarrow> Inl e
           | Inr ty \<Rightarrow>
               if ty = JStr ''tool_use'' then
                 (case dict_get content_block ''id''
                         (JStr (''call_'' @ show_nat (tool_call_index st))) of
                    Inl e \<Rightarrow> Inl e
                  | Inr ident \<Rightarrow>
                      (case dict_get content_block ''name'' (JStr []) of
                         Inl e \<Rightarrow> Inl e
                       | Inr name \<Rightarrow>
                           Inr (Next
                             (st\<lparr>has_tool_calls := True,
                                 current_tool_use :=
                                   Some \<lparr>tu_id = ident, tu_name = name,
                                         tu_index = tool_call_index st\<rparr>,
                                 tool_use_input_json := [],
                                 clock_reads := clock_reads st + 2\<rparr>)
                             [Chunk (create_openai_tool_call_chunk E (clock_reads st) model
                                (initial_tool_calls (tool_call_index st) ident name)
                                JNull JNull)])))
               else Inr (Next st [])))"

definition on_text_delta :: "env \<Rightarrow> json \<Rightarrow> stream_state \<Rightarrow> json \<Rightarrow> exn + step" where
  "on_text_delta E model st delta =
     (case dict_get delta ''text'' (JStr []) of
        Inl e \<Rightarrow> Inl e
      | Inr txt \<Rightarrow>
          if truthy txt then
            Inr (Next (st\<lparr>clock_reads := clock_reads st + 2\<rparr>)
              [Chunk (create_openai_tool_call_chunk E (clock_reads st) model JNull txt JNull)])
          else Inr (Next st []))"

definition on_input_json_delta :: "env \<Rightarrow> json \<Rightarrow> stream_state \<Rightarrow> json \<Rightarrow> exn + step" where
  "on_input_json_delta E model st delta =
     (case dict_get delta ''partial_json'' (JStr []) of
        Inl e \<Rightarrow> Inl e
      | Inr partial_json \<Rightarrow>
          if truthy partial_json then
            (case current_tool_use st of
               None \<Rightarrow> Inr (Next st [])
             | Some tu \<Rightarrow>
                 (case partial_json of
                    JStr s \<Rightarrow>
                      Inr (Next
                        (st\<lparr>tool_use_input_json := tool_use_input_json st @ s,
                            clock_reads := clock_reads st + 2\<rparr>)
                        [Chunk (create_openai_tool_call_chunk E (clock_reads st) model
                           (argument_tool_calls (tu_index tu) partial_json) JNull JNull)])
                  | _ \<Rightarrow> Inl TypeError))
          else Inr (Next st []))"

definition on_thinking_delta :: "env \<Rightarrow> json \<Rightarrow> stream_state \<Rightarrow> json \<Rightarrow> exn + step" where
  "on_thinking_delta E model st delta =
     (case dict_get delta ''thinking'' (JStr []) of
        Inl e \<Rightarrow> Inl e
      | Inr thinking_text \<Rightarrow>
          if truthy thinking_text then
            Inr (Next (st\<lparr>clock_reads := clock_reads st + 1\<rparr>)
              [Chunk (reasoning_chunk E (clock_reads st) model thinking_text)])
          else Inr (Next st []))"

definition on_citations_delta :: "env \<Rightarrow> json \<Rightarrow> stream_state \<Rightarrow> json \<Rightarrow> exn + step" where
  "on_citations_delta E model st delta =
     (case dict_get delta ''citation'' (JObj []) of
        Inl e \<Rightarrow> Inl e
      | Inr citation \<Rightarrow>
          if truthy citation then
            (case dict_get citation ''document_index'' (JInt 0) of
               Inl e \<Rightarrow> Inl e
             | Inr doc_index \<Rightarrow>
                 (case dict_get citation ''document_title'' (JStr []) of
                    Inl e \<Rightarrow> Inl e
                  | Inr doc_title \<Rightarrow>
                      Inr (Next (st\<lparr>clock_reads := clock_reads st + 2\<rparr>)
                        [Chunk (create_openai_tool_call_chunk E (clock_reads st) model JNull
                           (JStr (cite_text E doc_index doc_title)) JNull)])))
          else Inr (Next st []))"

definition on_block_delta :: "env \<Rightarrow> json \<Rightarrow> stream_state \<Rightarrow> json \<Rightarrow> exn + step" where
  "on_block_delta E model st data =
     (case dict_get data ''delta'' (JObj []) of
        Inl e \<Rightarrow> Inl e
      | Inr delta \<Rightarrow>
          (case dict_get delta ''type'' JNull of
             Inl e \<Rightarrow> Inl e
           | Inr kind \<Rightarrow>
               if kind = JStr ''text_delta'' then on_text_delta E model st delta
               else if kind = JStr ''input_json_delta'' then on_input_json_delta E model st delta
               else if kind = JStr ''thinking_delta'' then on_thinking_delta E model st delta
               else if kind = JStr ''citations_delta'' then on_citations_delta E model st delta
               else Inr (Next st [])))"

definition on_block_stop :: "stream_state \<Rightarrow> step" where
  "on_block_stop st =
     (case current_tool_use st of
        None \<Rightarrow> Next st []
      | Some tu \<Rightarrow>
          Next (st\<lparr>tool_call_index := tool_call_index st + 1,
                   current_tool_use := None,
                   tool_use_input_json := []\<rparr>) [])"

definition on_message_stop :: "env \<Rightarrow> json \<Rightarrow> stream_state \<Rightarrow> step" where
  "on_message_stop E model st =
     Break [Chunk (create_openai_tool_call_chunk E (clock_reads st) model JNull JNull
              (JStr (if has_tool_calls st then ''tool_calls'' else ''stop''))),
            Done]"

definition handle_event :: "env \<Rightarrow> json \<Rightarrow> stream_state \<Rightarrow> json \<Rightarrow> exn + step" where
  "handle_event E model st data =
     (case subscript data ''type'' of
        Inl e \<Rightarrow> Inl e
      | Inr ty \<Rightarrow>
          if ty = JStr ''content_block_start'' then on_block_start E model st data
          else if ty = JStr ''content_block_delta'' then on_block_delta E model st data
          else if ty = JStr ''content_block_stop'' then Inr (on_block_stop st)
          else if ty = JStr ''message_stop'' then Inr (on_message_stop E model st)
          else Inr (Next st []))"

text \<open>
  One line of \<^verbatim>\<open>response.content\<close>. A line that is empty or does not start with
  \<^verbatim>\<open>data: \<close> is passed over; \<^verbatim>\<open>except json.JSONDecodeError\<close> logs and goes on to the
  next line; every other exception leaves the loop.
\<close>

definition process_line :: "env \<Rightarrow> json \<Rightarrow> stream_state \<Rightarrow> string \<Rightarrow> exn + step" where
  "process_line E model st line =
     (if line \<noteq> [] \<and> startswith line ''data: '' then
        (case json_loads E (drop 6 line) of
           Inl e \<Rightarrow> if e = JSONDecodeError then Inr (Next st []) else Inl e
         | Inr data \<Rightarrow> handle_event E model st data)
      else Inr (Next st []))"

text \<open>
  Reading the response yields a line or raises (a timeout, a broken connection).
  The two handlers around the loop turn an exception into one last error line.
\<close>

datatype reading = Line string | ReadError exn

definition request_id_note :: "string option \<Rightarrow> string option" where
  "request_id_note r = (case r of None \<Rightarrow> None | Some s \<Rightarrow> if s = [] then None else Some s)"

definition error_line :: "exn \<Rightarrow> string option \<Rightarrow> emitted" where
  "error_line e r =
     (if e = TimeoutError then ErrorLine TimedOut (request_id_note r)
      else ErrorLine (StreamError e) (request_id_note r))"

fun stream_lines :: "env \<Rightarrow> json \<Rightarrow> string option \<Rightarrow> stream_state \<Rightarrow> reading list \<Rightarrow> emitted list" where
  "stream_lines E model rid st [] = []"
| "stream_lines E model rid st (ReadError e # rest) = [error_line e rid]"
| "stream_lines E model rid st (Line l # rest) =
     (case process_line E model st l of
        Inl e \<Rightarrow> [error_line e rid]
      | Inr (Next st' out) \<Rightarrow> out @ stream_lines E model rid st' rest
      | Inr (Break out) \<Rightarrow> out)"

text \<open>
  The whole generator. The POST either raises (the message then carries the request
  id left by an earlier call) or answers with a status, an \<^verbatim>\<open>x-request-id\<close> header,
  a body and the lines of the body.
\<close>

datatype connection =
    ConnectError exn
  | Connected nat "string option" string "reading list"

definition stream_with_ui :: "env \<Rightarrow> json \<Rightarrow> string option \<Rightarrow> connection \<Rightarrow> emitted list" where
  "stream_with_ui E model prev_request_id conn =
     (case conn of
        ConnectError e \<Rightarrow> [error_line e prev_request_id]
      | Connected status rid body reads \<Rightarrow>
          if status \<noteq> 200 then [ErrorLine (HttpStatus status body) (request_id_note rid)]
          else stream_lines E model rid init_state reads)"


section \<open>Describing streams\<close>

text \<open>
  The vocabulary of the statements below. \<open>event_of\<close> is the value \<^verbatim>\<open>json.loads\<close>
  returns for a line the loop decodes (\<open>None\<close> for a line it passes over and for one
  whose decoding raises); \<open>delta_of d kind\<close> is the delta dict of a
  \<^verbatim>\<open>content_block_delta\<close> event whose delta has that type; \<open>chunk_choice c k\<close> reads
  \<^verbatim>\<open>c["choices"][0][k]\<close> of an emitted chunk; \<open>run_lines\<close> is the state and output
  after lines that the loop gets through without an exception and without leaving.
\<close>

definition event_of :: "env \<Rightarrow> string \<Rightarrow> json option" where
  "event_of E l =
     (if l \<noteq> [] \<and> startswith l ''data: '' then
        (case json_loads E (drop 6 l) of Inr d \<Rightarrow> Some d | Inl e \<Rightarrow> None)
      else None)"

definition delta_of :: "json \<Rightarrow> string \<Rightarrow> json option" where
  "delta_of d kind =
     (if subscript d ''type'' = Inr (JStr ''content_block_delta'') then
        (case dict_get d ''delta'' (JObj []) of
           Inr dl \<Rightarrow> if dict_get dl ''type'' JNull = Inr (JStr kind) then Some dl else None
         | Inl e \<Rightarrow> None)
      else None)"

definition chunk_choice :: "json \<Rightarrow> string \<Rightarrow> json option" where
  "chunk_choice c k =
     (case c of
        JObj kvs \<Rightarrow>
          (case map_of kvs ''choices'' of
             Some (JArr [JObj ch]) \<Rightarrow> map_of ch k
           | _ \<Rightarrow> None)
      | _ \<Rightarrow> None)"

fun run_lines :: "env \<Rightarrow> json \<Rightarrow> stream_state \<Rightarrow> string list \<Rightarrow> (stream_state \<times> emitted list) option" where
  "run_lines E model st [] = Some (st, [])"
| "run_lines E model st (l # ls) =
     (case process_line E model st l of
        Inr (Next st' out) \<Rightarrow>
          (case run_lines E model st' ls of
             Some (st'', out') \<Rightarrow> Some (st'', out @ out')
           | None \<Rightarrow> None)
      | _ \<Rightarrow> None)"

definition is_message_stop :: "env \<Rightarrow> string \<Rightarrow> bool" where
  "is_message_stop E l =
     (case event_of E l of
        Some d \<Rightarrow> subscript d ''type'' = Inr (JStr ''message_stop'')
      | None \<Rightarrow> False)"

definition is_block_stop :: "env \<Rightarrow> string \<Rightarrow> bool" where
  "is_block_stop E l =
     (case event_of E l of
        Some d \<Rightarrow> subscript d ''type'' = Inr (JStr ''content_block_stop'')
      | None \<Rightarrow> False)"

text \<open>
  \<open>tool_use_block d\<close> is the content block of a \<^verbatim>\<open>content_block_start\<close> event whose
  block has type \<^verbatim>\<open>tool_use\<close>.
\<close>

definition tool_use_block :: "json \<Rightarrow> json option" where
  "tool_use_block d =
     (if subscript d ''type'' = Inr (JStr ''content_block_start'') then
        (case dict_get d ''content_block'' (JObj []) of
           Inr cb \<Rightarrow> if dict_get cb ''type'' JNull = Inr (JStr ''tool_use'') then Some cb else None
         | Inl e \<Rightarrow> None)
      else None)"

definition starts_tool_use :: "env \<Rightarrow> string \<Rightarrow> bool" where
  "starts_tool_use E l =
     (case event_of E l of Some d \<Rightarrow> tool_use_block d \<noteq> None | None \<Rightarrow> False)"

text \<open>
  The fragment an \<^verbatim>\<open>input_json_delta\<close> line carries, when it is not empty, and the
  fragments of the lines up to the next \<^verbatim>\<open>content_block_stop\<close>.
\<close>

definition event_fragment :: "json \<Rightarrow> json list" where
  "event_fragment d =
     (case delta_of d ''input_json_delta'' of
        Some dl \<Rightarrow>
          (case dict_get dl ''partial_json'' (JStr []) of
             Inr p \<Rightarrow> if truthy p then [p] else []
           | Inl e \<Rightarrow> [])
      | None \<Rightarrow> [])"

definition fragment :: "env \<Rightarrow> string \<Rightarrow> json list" where
  "fragment E l = (case event_of E l of Some d \<Rightarrow> event_fragment d | None \<Rightarrow> [])"

definition fragments :: "env \<Rightarrow> string list \<Rightarrow> json list" where
  "fragments E ls = concat (map (fragment E) (takeWhile (\<lambda>l. \<not> is_block_stop E l) ls))"

text \<open>
  What an emitted item says about tool calls and the end of the answer: the
  \<^verbatim>\<open>tool_calls\<close> of its delta, or else its \<^verbatim>\<open>finish_reason\<close> when that is not
  \<^verbatim>\<open>None\<close>; the sentinel; an error line. A chunk of text or reasoning says nothing.
\<close>

datatype signal = ToolCalls json | FinishReason json | Sentinel | Failed

definition signal_of :: "emitted \<Rightarrow> signal list" where
  "signal_of x =
     (case x of
        Chunk c \<Rightarrow>
          (case chunk_choice c ''delta'' of
             Some (JObj dl) \<Rightarrow>
               (case map_of dl ''tool_calls'' of
                  Some tc \<Rightarrow> [ToolCalls tc]
                | None \<Rightarrow>
                    (case chunk_choice c ''finish_reason'' of
                       Some r \<Rightarrow> if r = JNull then [] else [FinishReason r]
                     | None \<Rightarrow> []))
           | _ \<Rightarrow> [])
      | Done \<Rightarrow> [Sentinel]
      | ErrorLine f r \<Rightarrow> [Failed])"

definition signals :: "emitted list \<Rightarrow> signal list" where
  "signals xs = concat (map signal_of xs)"

text \<open>The three variables a delta event never touches.\<close>

definition unchanged :: "stream_state \<Rightarrow> stream_state \<Rightarrow> bool" where
  "unchanged st st' =
     (has_tool_calls st' = has_tool_calls st \<and>
      current_tool_use st' = current_tool_use st \<and>
      tool_call_index st' = tool_call_index st)"

section \<open>Events of the upstream protocol\<close>

text \<open>
  The events the vendor sends, by kind, and the dict each one is on the wire. A
  content block is a dict with a \<^verbatim>\<open>type\<close> (\<^verbatim>\<open>text\<close>, \<^verbatim>\<open>tool_use\<close>, \<^verbatim>\<open>thinking\<close>, ...)
  and fields of its own; a citation is a dict. Only the fields the translator reads
  are named; \<open>Other\<close> stands for the kinds it passes over (\<^verbatim>\<open>message_start\<close>,
  \<^verbatim>\<open>message_delta\<close>, \<^verbatim>\<open>ping\<close>, \<^verbatim>\<open>error\<close>).
\<close>

datatype delta =
    TextDelta string
  | InputJsonDelta string
  | ThinkingDelta string
  | SignatureDelta string
  | CitationsDelta "(string \<times> json) list"

datatype stream_event =
    ContentBlockStart int "(string \<times> json) list"
  | ContentBlockDelta int delta
  | ContentBlockStop int
  | MessageStop
  | Other string "(string \<times> json) list"

fun wire_delta :: "delta \<Rightarrow> json" where
  "wire_delta (TextDelta s) = JObj [(''type'', JStr ''text_delta''), (''text'', JStr s)]"
| "wire_delta (InputJsonDelta s) =
     JObj [(''type'', JStr ''input_json_delta''), (''partial_json'', JStr s)]"
| "wire_delta (ThinkingDelta s) =
     JObj [(''type'', JStr ''thinking_delta''), (''thinking'', JStr s)]"
| "wire_delta (SignatureDelta s) =
     JObj [(''type'', JStr ''signature_delta''), (''signature'', JStr s)]"
| "wire_delta (CitationsDelta c) =
     JObj [(''type'', JStr ''citations_delta''), (''citation'', JObj c)]"

fun wire :: "stream_event \<Rightarrow> json" where
  "wire (ContentBlockStart i cb) =
     JObj [(''type'', JStr ''content_block_start''), (''index'', JInt i),
           (''content_block'', JObj cb)]"
| "wire (ContentBlockDelta i dl) =
     JObj [(''type'', JStr ''content_block_delta''), (''index'', JInt i),
           (''delta'', wire_delta dl)]"
| "wire (ContentBlockStop i) = JObj [(''type'', JStr ''content_block_stop''), (''index'', JInt i)]"
| "wire MessageStop = JObj [(''type'', JStr ''message_stop'')]"
| "wire (Other kind kvs) = JObj ((''type'', JStr kind) # kvs)"

text \<open>
  The kinds of \<open>Other\<close> are the names the translator does not branch on.
\<close>

definition passed_over :: "string \<Rightarrow> bool" where
  "passed_over kind =
     (kind \<notin> set [''content_block_start'', ''content_block_delta'', ''content_block_stop'',
                  ''message_stop''])"

definition proper :: "stream_event \<Rightarrow> bool" where
  "proper ev = (case ev of Other kind kvs \<Rightarrow> passed_over kind | _ \<Rightarrow> True)"

text \<open>
  A line that carries an event: a \<^verbatim>\<open>data: \<close> line that \<^verbatim>\<open>json.loads\<close> decodes to the
  event's dict.
\<close>

definition carries :: "env \<Rightarrow> string \<Rightarrow> stream_event \<Rightarrow> bool" where
  "carries E l ev = (startswith l ''data: '' \<and> json_loads E (drop 6 l) = Inr (wire ev))"

section \<open>Example streams\<close>

text \<open>
  Lines as the vendor sends them, the values \<^verbatim>\<open>json.loads\<close> gives for them, and an
  environment that decodes these lines. CPython raises UnicodeDecodeError on the byte
  \<^verbatim>\<open>0xFF\<close> and JSONDecodeError on text that is not a JSON document.
\<close>

definition ev_text :: json where
  "ev_text = JObj [(''type'', JStr ''content_block_delta''), (''index'', JInt 0),
     (''delta'', JObj [(''type'', JStr ''text_delta''), (''text'', JStr ''Hi'')])]"

definition ev_tool_start :: json where
  "ev_tool_start = JObj [(''type'', JStr ''content_block_start''), (''index'', JInt 1),
     (''content_block'', JObj [(''type'', JStr ''tool_use''), (''id'', JStr ''toolu_01''),
        (''name'', JStr ''get_weather''), (''input'', JObj [])])]"

definition ev_args :: "string \<Rightarrow> json" where
  "ev_args s = JObj [(''type'', JStr ''content_block_delta''), (''index'', JInt 1),
     (''delta'', JObj [(''type'', JStr ''input_json_delta''), (''partial_json'', JStr s)])]"

definition ev_block_stop :: json where
  "ev_block_stop = JObj [(''type'', JStr ''content_block_stop''), (''index'', JInt 1)]"

definition ev_citation :: json where
  "ev_citation = JObj [(''type'', JStr ''content_block_delta''), (''index'', JInt 0),
     (''delta'', JObj [(''type'', JStr ''citations_delta''),
        (''citation'', JObj [(''type'', JStr ''char_location''), (''document_index'', JInt 3),
           (''document_title'', JStr ''Guide'')])])]"

definition ev_message_stop :: json where
  "ev_message_stop = JObj [(''type'', JStr ''message_stop'')]"

definition line_text :: string where
  "line_text = ''data: {\"type\": \"content_block_delta\", \"index\": 0, \"delta\": {\"type\": \"text_delta\", \"text\": \"Hi\"}}\<newline>''"

definition line_tool_start :: string where
  "line_tool_start = ''data: {\"type\": \"content_block_start\", \"index\": 1, \"content_block\": {\"type\": \"tool_use\", \"id\": \"toolu_01\", \"name\": \"get_weather\", \"input\": {}}}\<newline>''"

definition line_args1 :: string where
  "line_args1 = ''data: {\"type\": \"content_block_delta\", \"index\": 1, \"delta\": {\"type\": \"input_json_delta\", \"partial_json\": \"[1, \"}}\<newline>''"

definition line_args2 :: string where
  "line_args2 = ''data: {\"type\": \"content_block_delta\", \"index\": 1, \"delta\": {\"type\": \"input_json_delta\", \"partial_json\": \"2]\"}}\<newline>''"

definition line_block_stop :: string where
  "line_block_stop = ''data: {\"type\": \"content_block_stop\", \"index\": 1}\<newline>''"

definition line_citation :: string where
  "line_citation = ''data: {\"type\": \"content_block_delta\", \"index\": 0, \"delta\": {\"type\": \"citations_delta\", \"citation\": {\"type\": \"char_location\", \"document_index\": 3, \"document_title\": \"Guide\"}}}\<newline>''"

definition line_message_stop :: string where
  "line_message_stop = ''data: {\"type\": \"message_stop\"}\<newline>''"

definition line_event_name :: string where
  "line_event_name = ''event: message_stop\<newline>''"

definition line_truncated :: string where
  "line_truncated = ''data: {\"type\": \"content_block_de\<newline>''"

definition line_undecodable :: string where
  "line_undecodable = ''data: '' @ [CHR 0xFF, CHR ''\<newline>'']"

definition example_loads :: "string \<Rightarrow> exn + json" where
  "example_loads s =
     (if s = drop 6 line_text then Inr ev_text
      else if s = drop 6 line_tool_start then Inr ev_tool_start
      else if s = drop 6 line_args1 then Inr (ev_args ''[1, '')
      else if s = drop 6 line_args2 then Inr (ev_args ''2]'')
      else if s = drop 6 line_block_stop then Inr ev_block_stop
      else if s = drop 6 line_citation then Inr ev_citation
      else if s = drop 6 line_message_stop then Inr ev_message_stop
      else if s = drop 6 line_undecodable then Inl UnicodeDecodeError
      else Inl JSONDecodeError)"

text \<open>
  The rest of the example environment. \<^verbatim>\<open>int()\<close> is given on the two numerals the
  examples use (the second is 1 followed by 400 zeros); \<^verbatim>\<open>float()\<close> on the numbers
  that are floats as they are, no string of the examples being a number;
  \<^verbatim>\<open>asyncio.sleep\<close> raises from \<open>2^1024 - 2^970\<close> on, the first integer that is no
  float. \<open>example_pop\<close> does what the host does on a list of messages that have a
  role, and \<open>example_process\<close> what \<^verbatim>\<open>_process_messages\<close> does on user messages whose
  content is a string that is not empty: each becomes one text block, and nothing is
  changed in place. On other messages \<open>example_process\<close> is not the program.
\<close>

definition example_int :: "string \<Rightarrow> int option" where
  "example_int s =
     (if s = ''2'' then Some 2
      else if s = CHR ''1'' # replicate 400 (CHR ''0'') then Some (10 ^ 400)
      else None)"

definition example_float :: "json \<Rightarrow> exn + json" where
  "example_float x =
     (case x of
        JFloat r \<Rightarrow> Inr (JFloat r)
      | JInt n \<Rightarrow> if \<bar>n\<bar> \<le> 2 ^ 53 then Inr (JFloat (of_int n)) else Inl (OtherError ''inexact'')
      | JBool b \<Rightarrow> Inr (JFloat (if b then 1 else 0))
      | JStr s \<Rightarrow> Inl (FloatLiteralError s)
      | _ \<Rightarrow> Inl TypeError)"

definition example_sleep :: "int \<Rightarrow> exn option" where
  "example_sleep d = (if d < 2 ^ 1024 - 2 ^ 970 then None else Some OverflowError)"

definition is_system :: "json \<Rightarrow> bool" where
  "is_system message = (dict_get message ''role'' JNull = Inr (JStr ''system''))"

definition example_pop :: "json \<Rightarrow> exn + json \<times> json list" where
  "example_pop body_messages =
     (case body_messages of
        JArr ms \<Rightarrow>
          Inr (case find is_system ms of None \<Rightarrow> JNull | Some message \<Rightarrow> message,
               filter (\<lambda>message. \<not> is_system message) ms)
      | _ \<Rightarrow> Inl TypeError)"

definition plain_user :: "json \<Rightarrow> json list" where
  "plain_user message =
     (case message of
        JObj kvs \<Rightarrow>
          (case (map_of kvs ''role'', map_of kvs ''content'') of
             (Some (JStr role), Some (JStr content)) \<Rightarrow>
               if role = ''user'' \<and> content \<noteq> [] then
                 [JObj [(''role'', JStr role),
                        (''content'', JArr [JObj [(''type'', JStr ''text''),
                                                  (''text'', JStr content)]])]]
               else []
           | _ \<Rightarrow> [])
      | _ \<Rightarrow> [])"

definition example_process :: "json \<Rightarrow> json list \<Rightarrow> exn + json \<times> json" where
  "example_process body_messages messages =
     (if list_all (\<lambda>message. plain_user message \<noteq> []) messages
      then Inr (JArr (concat (map plain_user messages)), body_messages)
      else Inl (OtherError ''not a plain user message''))"

definition example_env :: env where
  "example_env =
     \<lparr>json_loads = example_loads, py_repr = (\<lambda>v. []),
      time_now = (\<lambda>n. 1700000000 + int n),
      py_int = example_int,
      py_float = example_float,
      sleep = example_sleep,
      pop_system_message = example_pop,
      process_messages = example_process\<rparr>"

section \<open>The request builder\<close>

text \<open>
  String operations of \<^verbatim>\<open>str\<close>: \<^verbatim>\<open>s.split(c)\<close> for a one-character separator,
  \<^verbatim>\<open>s.split(c, 1)\<close> unpacked into two names (\<open>None\<close> when there is no separator and
  the unpacking raises), \<^verbatim>\<open>p in s\<close>, and \<^verbatim>\<open>s.replace(old, new)\<close>.
\<close>

fun split_on :: "char \<Rightarrow> string \<Rightarrow> string list" where
  "split_on c [] = [[]]"
| "split_on c (x # xs) =
     (if x = c then [] # split_on c xs
      else (case split_on c xs of [] \<Rightarrow> [[x]] | y # ys \<Rightarrow> (x # y) # ys))"

fun split_once :: "char \<Rightarrow> string \<Rightarrow> (string \<times> string) option" where
  "split_once c [] = None"
| "split_once c (x # xs) =
     (if x = c then Some ([], xs)
      else (case split_once c xs of None \<Rightarrow> None | Some (a, b) \<Rightarrow> Some (x # a, b)))"

fun contains :: "string \<Rightarrow> string \<Rightarrow> bool" where
  "contains p [] = (p = [])"
| "contains p (x # xs) = (startswith (x # xs) p \<or> contains p xs)"

function replace_nonempty :: "string \<Rightarrow> string \<Rightarrow> string \<Rightarrow> string" where
  "replace_nonempty old new s =
     (if s = [] \<or> old = [] then s
      else if startswith s old then new @ replace_nonempty old new (drop (length old) s)
      else hd s # replace_nonempty old new (tl s))"
  by pat_completeness auto
termination
  by (relation "measure (\<lambda>(old, new, s). length s)") auto

declare replace_nonempty.simps [simp del]

definition py_replace :: "string \<Rightarrow> string \<Rightarrow> string \<Rightarrow> string" where
  "py_replace old new s =
     (if old = [] then new @ concat (map (\<lambda>c. c # new) s) else replace_nonempty old new s)"

text \<open>The class constants.\<close>

definition MAX_IMAGE_SIZE :: rat where
  "MAX_IMAGE_SIZE = 5 * 1024 * 1024"

definition TOTAL_MAX_IMAGE_SIZE :: rat where
  "TOTAL_MAX_IMAGE_SIZE = 100 * 1024 * 1024"

definition MAX_IMAGES_PER_REQUEST :: nat where
  "MAX_IMAGES_PER_REQUEST = 100"

definition MODEL_MAX_TOKENS :: "(string \<times> int) list" where
  "MODEL_MAX_TOKENS =
     [(''claude-opus-4-5-20250514'', 32000),
      (''claude-4-5-opus-20250514'', 32000),
      (''claude-opus-4-20250514'', 32000),
      (''claude-opus-4-0'', 32000),
      (''claude-sonnet-4-20250514'', 64000),
      (''claude-sonnet-4-0'', 64000),
      (''claude-3-7-sonnet-20250219'', 128000),
      (''claude-3-7-sonnet-latest'', 128000),
      (''claude-3-5-sonnet-20241022'', 8192),
      (''claude-3-5-sonnet-20240620'', 8192),
      (''claude-3-5-sonnet-latest'', 8192)]"

record valves =
  ANTHROPIC_API_KEY :: string
  THINKING_BUDGET_TOKENS :: int

text \<open>
  \<^verbatim>\<open>validate_total_image_size\<close>. The two nested loops add a size and count an image
  for every item of type \<^verbatim>\<open>image_url\<close> whose URL starts with \<^verbatim>\<open>data:image\<close>. The size
  is \<^verbatim>\<open>len(base64_data) * 3 / 4\<close>, a float that is exact for every length below
  \<open>2^51\<close>, so the model computes with rationals. The first error carries the total
  that the message cites, the second the count.
\<close>

definition scan_item :: "json \<Rightarrow> rat \<times> nat \<Rightarrow> exn + rat \<times> nat" where
  "scan_item item acc =
     (case dict_get item ''type'' JNull of
        Inl e \<Rightarrow> Inl e
      | Inr ty \<Rightarrow>
          if ty = JStr ''image_url'' then
            (case subscript item ''image_url'' of
               Inl e \<Rightarrow> Inl e
             | Inr image_url \<Rightarrow>
                 (case subscript image_url ''url'' of
                    Inl e \<Rightarrow> Inl e
                  | Inr u \<Rightarrow>
                      (case u of
                         JStr url \<Rightarrow>
                           if startswith url ''data:image'' then
                             (case split_once CHR '','' url of
                                None \<Rightarrow> Inl UnpackError
                              | Some (mime, base64_data) \<Rightarrow>
                                  Inr (fst acc + of_nat (length base64_data) * 3 / 4,
                                       snd acc + 1))
                           else Inr acc
                       | _ \<Rightarrow> Inl AttributeError)))
          else Inr acc)"

fun scan_items :: "json list \<Rightarrow> rat \<times> nat \<Rightarrow> exn + rat \<times> nat" where
  "scan_items [] acc = Inr acc"
| "scan_items (item # items) acc =
     (case scan_item item acc of Inl e \<Rightarrow> Inl e | Inr acc' \<Rightarrow> scan_items items acc')"

definition scan_message :: "json \<Rightarrow> rat \<times> nat \<Rightarrow> exn + rat \<times> nat" where
  "scan_message message acc =
     (case dict_get message ''content'' JNull of
        Inl e \<Rightarrow> Inl e
      | Inr content \<Rightarrow> (case content of JArr items \<Rightarrow> scan_items items acc | _ \<Rightarrow> Inr acc))"

fun scan_messages :: "json list \<Rightarrow> rat \<times> nat \<Rightarrow> exn + rat \<times> nat" where
  "scan_messages [] acc = Inr acc"
| "scan_messages (m # ms) acc =
     (case scan_message m acc of Inl e \<Rightarrow> Inl e | Inr acc' \<Rightarrow> scan_messages ms acc')"

definition validate_total_image_size :: "json list \<Rightarrow> exn + unit" where
  "validate_total_image_size messages =
     (case scan_messages messages (0, 0) of
        Inl e \<Rightarrow> Inl e
      | Inr (total_size, image_count) \<Rightarrow>
          if total_size > TOTAL_MAX_IMAGE_SIZE then Inl (TotalImageSizeError total_size)
          else if image_count > MAX_IMAGES_PER_REQUEST then Inl (TooManyImagesError image_count)
          else Inr ())"

text \<open>
  The model name and the thinking flag (lines 337 to 341), the ceiling (line 343),
  and \<^verbatim>\<open>min(body.get("max_tokens", limit), limit)\<close>: \<^verbatim>\<open>min(a, b)\<close> is \<open>b\<close> when
  \<open>b < a\<close> and \<open>a\<close> otherwise, and comparing an int with \<^verbatim>\<open>None\<close>, a string, a
  list or a dict raises TypeError.
\<close>

definition resolve_model :: "string \<Rightarrow> string \<times> bool" where
  "resolve_model model =
     (let model_name = last (split_on CHR ''/'' model);
          is_thinking_mode = contains ''-thinking'' model
      in (if is_thinking_mode then py_replace ''-thinking'' [] model_name else model_name,
          is_thinking_mode))"

definition max_tokens_limit :: "string \<Rightarrow> int" where
  "max_tokens_limit model_name =
     (case map_of MODEL_MAX_TOKENS model_name of Some n \<Rightarrow> n | None \<Rightarrow> 4096)"

definition py_min :: "json \<Rightarrow> int \<Rightarrow> exn + json" where
  "py_min a b =
     (case a of
        JInt n \<Rightarrow> Inr (if b < n then JInt b else JInt n)
      | JFloat r \<Rightarrow> Inr (if of_int b < r then JInt b else JFloat r)
      | JBool t \<Rightarrow> Inr (if b < (if t then 1 else 0) then JInt b else JBool t)
      | _ \<Rightarrow> Inl TypeError)"

text \<open>
  What the rest of \<^verbatim>\<open>pipe\<close> needs of Python. \<^verbatim>\<open>for x in v\<close> runs over the elements
  of a list, the characters of a string and the keys of a dict, and raises TypeError
  on \<^verbatim>\<open>None\<close>, a bool and a number. \<open>lookup kvs k d\<close> is \<^verbatim>\<open>body.get(k, d)\<close> on the dict
  \<open>kvs\<close>. \<^verbatim>\<open>int(x)\<close> cuts a float towards zero and parses a string;
  \<^verbatim>\<open>f(x) if x is not None else None\<close> is \<open>convert_opt f x\<close>.
\<close>

definition py_iter :: "json \<Rightarrow> exn + json list" where
  "py_iter x =
     (case x of
        JArr xs \<Rightarrow> Inr xs
      | JStr s \<Rightarrow> Inr (map (\<lambda>c. JStr [c]) s)
      | JObj kvs \<Rightarrow> Inr (map (\<lambda>kv. JStr (fst kv)) kvs)
      | _ \<Rightarrow> Inl TypeError)"

definition lookup :: "(string \<times> json) list \<Rightarrow> string \<Rightarrow> json \<Rightarrow> json" where
  "lookup kvs k dflt = (case map_of kvs k of None \<Rightarrow> dflt | Some x \<Rightarrow> x)"

definition int_of :: "env \<Rightarrow> json \<Rightarrow> exn + json" where
  "int_of E x =
     (case x of
        JInt n \<Rightarrow> Inr (JInt n)
      | JBool b \<Rightarrow> Inr (JInt (if b then 1 else 0))
      | JFloat r \<Rightarrow> Inr (JInt (if r < 0 then - \<lfloor>- r\<rfloor> else \<lfloor>r\<rfloor>))
      | JStr s \<Rightarrow> (case py_int E s of None \<Rightarrow> Inl (IntLiteralError s) | Some n \<Rightarrow> Inr (JInt n))
      | _ \<Rightarrow> Inl TypeError)"

definition convert_opt :: "(json \<Rightarrow> exn + json) \<Rightarrow> json \<Rightarrow> exn + json" where
  "convert_opt f x = (if x = JNull then Inr JNull else f x)"

text \<open>
  The entries \<^verbatim>\<open>temperature\<close>, \<^verbatim>\<open>top_k\<close> and \<^verbatim>\<open>top_p\<close> of the dict literal (lines 351
  to 361), evaluated in this order.
\<close>

definition sampling :: "env \<Rightarrow> (string \<times> json) list \<Rightarrow> exn + (string \<times> json) list" where
  "sampling E kvs =
     (case convert_opt (py_float E) (lookup kvs ''temperature'' JNull) of
        Inl e \<Rightarrow> Inl e
      | Inr temperature \<Rightarrow>
          (case convert_opt (int_of E) (lookup kvs ''top_k'' JNull) of
             Inl e \<Rightarrow> Inl e
           | Inr top_k \<Rightarrow>
               (case convert_opt (py_float E) (lookup kvs ''top_p'' JNull) of
                  Inl e \<Rightarrow> Inl e
                | Inr top_p \<Rightarrow>
                    Inr [(''temperature'', temperature), (''top_k'', top_k),
                         (''top_p'', top_p)])))"

text \<open>\<^verbatim>\<open>convert_openai_tools_to_anthropic\<close>: one tool, then the loop over the tools.\<close>

definition convert_tool :: "json \<Rightarrow> exn + json list" where
  "convert_tool tool =
     (case dict_get tool ''type'' JNull of
        Inl e \<Rightarrow> Inl e
      | Inr ty \<Rightarrow>
          if ty = JStr ''function'' then
            (case dict_get tool ''function'' (JObj []) of
               Inl e \<Rightarrow> Inl e
             | Inr function \<Rightarrow>
                 (case dict_get function ''name'' JNull of
                    Inl e \<Rightarrow> Inl e
                  | Inr name \<Rightarrow>
                      (case dict_get function ''description'' JNull of
                         Inl e \<Rightarrow> Inl e
                       | Inr description \<Rightarrow>
                           (case dict_get function ''parameters'' (JObj []) of
                              Inl e \<Rightarrow> Inl e
                            | Inr parameters \<Rightarrow>
                                Inr [JObj [(''name'', name), (''description'', description),
                                           (''input_schema'', parameters)]]))))
          else Inr [])"

fun convert_tools :: "json list \<Rightarrow> exn + json list" where
  "convert_tools [] = Inr []"
| "convert_tools (tool # tools) =
     (case convert_tool tool of
        Inl e \<Rightarrow> Inl e
      | Inr a \<Rightarrow> (case convert_tools tools of Inl e \<Rightarrow> Inl e | Inr b \<Rightarrow> Inr (a @ b)))"

definition convert_openai_tools_to_anthropic :: "json \<Rightarrow> exn + json" where
  "convert_openai_tools_to_anthropic tools =
     (case py_iter tools of
        Inl e \<Rightarrow> Inl e
      | Inr ts \<Rightarrow> (case convert_tools ts of Inl e \<Rightarrow> Inl e | Inr r \<Rightarrow> Inr (JArr r)))"

text \<open>
  Lines 372 to 400: the entries \<^verbatim>\<open>tools\<close> and \<^verbatim>\<open>tool_choice\<close> when the body has the
  key \<^verbatim>\<open>tools\<close>, and the entry \<^verbatim>\<open>response_format\<close> when it has that key.
\<close>

definition tool_choice_entry :: "(string \<times> json) list \<Rightarrow> exn + (string \<times> json) list" where
  "tool_choice_entry kvs =
     (let tool_choice = lookup kvs ''tool_choice'' (JStr ''auto'') in
      if tool_choice = JStr ''none'' then
        Inr [(''tool_choice'', JObj [(''type'', JStr ''none'')])]
      else if tool_choice = JStr ''auto'' then
        Inr [(''tool_choice'', JObj [(''type'', JStr ''auto'')])]
      else
        (case tool_choice of
           JObj tc \<Rightarrow>
             if truthy (lookup tc ''function'' JNull) then
               (case subscript (lookup tc ''function'' JNull) ''name'' of
                  Inl e \<Rightarrow> Inl e
                | Inr name \<Rightarrow>
                    Inr [(''tool_choice'', JObj [(''type'', JStr ''tool''), (''name'', name)])])
             else Inr []
         | _ \<Rightarrow> Inr []))"

definition tool_entries :: "(string \<times> json) list \<Rightarrow> exn + (string \<times> json) list" where
  "tool_entries kvs =
     (case map_of kvs ''tools'' of
        None \<Rightarrow> Inr []
      | Some tools \<Rightarrow>
          (case convert_openai_tools_to_anthropic tools of
             Inl e \<Rightarrow> Inl e
           | Inr anthropic_tools \<Rightarrow>
               (case tool_choice_entry kvs of
                  Inl e \<Rightarrow> Inl e
                | Inr choice \<Rightarrow> Inr ((''tools'', anthropic_tools) # choice))))"

definition response_format_entry :: "(string \<times> json) list \<Rightarrow> exn + (string \<times> json) list" where
  "response_format_entry kvs =
     (case map_of kvs ''response_format'' of
        None \<Rightarrow> Inr []
      | Some response_format \<Rightarrow>
          (case dict_get response_format ''type'' JNull of
             Inl e \<Rightarrow> Inl e
           | Inr ty \<Rightarrow> Inr [(''response_format'', JObj [(''type'', ty)])]))"

text \<open>
  Lines 415 to 463: the beta features. The loop over \<^verbatim>\<open>body.get("messages", [])\<close>
  sets four flags; it reads the items and can raise.
\<close>

definition PDF_HEADER :: string where
  "PDF_HEADER = ''pdfs-2024-09-25''"

definition PROMPT_CACHE_HEADER :: string where
  "PROMPT_CACHE_HEADER = ''prompt-caching-2024-07-31''"

definition OUTPUT128K_HEADER :: string where
  "OUTPUT128K_HEADER = ''output-128k-2025-02-19''"

definition EXTENDED_CACHE_HEADER :: string where
  "EXTENDED_CACHE_HEADER = ''extended-cache-ttl-2025-04-11''"

definition INTERLEAVED_THINKING_HEADER :: string where
  "INTERLEAVED_THINKING_HEADER = ''interleaved-thinking-2025-05-14''"

definition FILES_API_HEADER :: string where
  "FILES_API_HEADER = ''files-api-2025-04-14''"

record beta_flags =
  has_pdf :: bool
  has_cache :: bool
  has_1h_cache :: bool
  has_files :: bool

definition flag_item :: "json \<Rightarrow> beta_flags \<Rightarrow> exn + beta_flags" where
  "flag_item item fl =
     (case dict_get item ''type'' JNull of
        Inl e \<Rightarrow> Inl e
      | Inr ty \<Rightarrow>
          (case dict_get item ''cache_control'' JNull of
             Inl e \<Rightarrow> Inl e
           | Inr cache_control \<Rightarrow>
               if truthy cache_control then
                 (case dict_get cache_control ''ttl'' JNull of
                    Inl e \<Rightarrow> Inl e
                  | Inr ttl \<Rightarrow>
                      Inr \<lparr>has_pdf = (has_pdf fl \<or> ty = JStr ''pdf_url''),
                           has_cache = True,
                           has_1h_cache = (has_1h_cache fl \<or> ttl = JStr ''1h''),
                           has_files = (has_files fl \<or> ty = JStr ''file_reference'')\<rparr>)
               else
                 Inr \<lparr>has_pdf = (has_pdf fl \<or> ty = JStr ''pdf_url''),
                      has_cache = has_cache fl,
                      has_1h_cache = has_1h_cache fl,
                      has_files = (has_files fl \<or> ty = JStr ''file_reference'')\<rparr>))"

fun flag_items :: "json list \<Rightarrow> beta_flags \<Rightarrow> exn + beta_flags" where
  "flag_items [] fl = Inr fl"
| "flag_items (item # items) fl =
     (case flag_item item fl of Inl e \<Rightarrow> Inl e | Inr fl' \<Rightarrow> flag_items items fl')"

definition flag_message :: "json \<Rightarrow> beta_flags \<Rightarrow> exn + beta_flags" where
  "flag_message msg fl =
     (case subscript msg ''content'' of
        Inl e \<Rightarrow> Inl e
      | Inr content \<Rightarrow> (case content of JArr items \<Rightarrow> flag_items items fl | _ \<Rightarrow> Inr fl))"

fun flag_messages :: "json list \<Rightarrow> beta_flags \<Rightarrow> exn + beta_flags" where
  "flag_messages [] fl = Inr fl"
| "flag_messages (msg # msgs) fl =
     (case flag_message msg fl of Inl e \<Rightarrow> Inl e | Inr fl' \<Rightarrow> flag_messages msgs fl')"

definition beta_scan :: "json \<Rightarrow> exn + beta_flags" where
  "beta_scan body_messages =
     (case py_iter body_messages of
        Inl e \<Rightarrow> Inl e
      | Inr msgs \<Rightarrow>
          flag_messages msgs
            \<lparr>has_pdf = False, has_cache = False, has_1h_cache = False, has_files = False\<rparr>)"

definition beta_headers_of :: "string \<Rightarrow> beta_flags \<Rightarrow> bool \<Rightarrow> string list" where
  "beta_headers_of model_name fl interleaved =
     (if model_name \<in> set [''claude-3-7-sonnet-20250219'', ''claude-3-7-sonnet-latest'',
                            ''claude-opus-4-5-20250514'', ''claude-4-5-opus-20250514'',
                            ''claude-opus-4-20250514'', ''claude-opus-4-0'',
                            ''claude-sonnet-4-20250514'', ''claude-sonnet-4-0'']
      then [OUTPUT128K_HEADER] else []) @
     (if has_pdf fl then [PDF_HEADER] else []) @
     (if has_cache fl then [PROMPT_CACHE_HEADER] else []) @
     (if has_1h_cache fl then [EXTENDED_CACHE_HEADER] else []) @
     (if has_files fl then [FILES_API_HEADER] else []) @
     (if interleaved then [INTERLEAVED_THINKING_HEADER] else [])"

text \<open>
  What \<^verbatim>\<open>pipe\<close> has in hand when it reaches line 469, where the request is sent: the
  payload (a dict, in insertion order), the beta headers and whether the answer is
  streamed.
\<close>

record request =
  payload :: "(string \<times> json) list"
  beta_headers :: "string list"
  streaming :: bool

text \<open>
  Lines 343 to 469, for a body that is the dict \<open>kvs\<close> and whose model is the string
  \<open>model\<close>. \<open>payload_entries\<close> is the payload as lines 345 to 407 put it together
  from the values computed. The steps are in the order of the code, so that the first exception raised
  is the one returned. \<^verbatim>\<open>_process_messages\<close> is taken with the environment: it gives
  the processed list and leaves \<^verbatim>\<open>body["messages"]\<close> as \<open>left\<close> (it sets
  \<^verbatim>\<open>cache_control\<close> on some items in place), which is what the loop over the beta
  features reads afterwards. The comprehension of line 366 drops the entries that are
  \<^verbatim>\<open>None\<close>; \<^verbatim>\<open>payload["stream"]\<close> at line 469 raises KeyError when \<^verbatim>\<open>stream\<close> was one
  of them.
\<close>

definition payload_entries ::
  "env \<Rightarrow> valves \<Rightarrow> (string \<times> json) list \<Rightarrow> json \<Rightarrow> string \<Rightarrow> bool \<Rightarrow> json \<Rightarrow> json \<Rightarrow>
   (string \<times> json) list \<Rightarrow> (string \<times> json) list \<Rightarrow> (string \<times> json) list \<Rightarrow>
   (string \<times> json) list" where
  "payload_entries E v kvs system_message model_name is_thinking_mode processed max_tokens
     sampled tools response_format =
     filter (\<lambda>kv. snd kv \<noteq> JNull)
       ([(''model'', JStr model_name), (''messages'', processed),
         (''max_tokens'', max_tokens)] @ sampled @
        [(''stream'', lookup kvs ''stream'' (JBool True)),
         (''metadata'', lookup kvs ''metadata'' (JObj []))]) @
     (if truthy system_message
      then [(''system'', JStr (py_str E system_message))] else []) @
     tools @ response_format @
     (if is_thinking_mode then
        [(''thinking'', JObj [(''type'', JStr ''enabled''),
           (''budget_tokens'', JInt (THINKING_BUDGET_TOKENS v))])]
      else [])"

definition build :: "env \<Rightarrow> valves \<Rightarrow> (string \<times> json) list \<Rightarrow> json \<Rightarrow> json list \<Rightarrow> string \<Rightarrow> exn + request" where
  "build E v kvs system_message messages model =
     (let (model_name, is_thinking_mode) = resolve_model model;
          limit = max_tokens_limit model_name
      in
        (case process_messages E (lookup kvs ''messages'' (JArr [])) messages of
           Inl e \<Rightarrow> Inl e
         | Inr (processed, left) \<Rightarrow>
        (case py_min (lookup kvs ''max_tokens'' (JInt limit)) limit of
           Inl e \<Rightarrow> Inl e
         | Inr max_tokens \<Rightarrow>
        (case sampling E kvs of
           Inl e \<Rightarrow> Inl e
         | Inr sampled \<Rightarrow>
        (case tool_entries kvs of
           Inl e \<Rightarrow> Inl e
         | Inr tools \<Rightarrow>
        (case response_format_entry kvs of
           Inl e \<Rightarrow> Inl e
         | Inr response_format \<Rightarrow>
        (case beta_scan left of
           Inl e \<Rightarrow> Inl e
         | Inr fl \<Rightarrow>
        (let entries =
               payload_entries E v kvs system_message model_name is_thinking_mode processed
                 max_tokens sampled tools response_format
         in
           (case map_of entries ''stream'' of
              None \<Rightarrow> Inl (KeyError ''stream'')
            | Some stream \<Rightarrow>
                Inr \<lparr>payload = entries,
                     beta_headers =
                       beta_headers_of model_name fl
                         (is_thinking_mode \<and>
                          truthy (lookup kvs ''interleaved_thinking'' (JBool False))),
                     streaming = truthy stream\<rparr>)))))))))"

text \<open>
  The \<^verbatim>\<open>try\<close> block of \<^verbatim>\<open>pipe\<close> from line 334 on, \<open>system_message\<close> and \<open>messages\<close>
  being what the host's \<^verbatim>\<open>pop_system_message\<close> returned: the validation of the images,
  \<^verbatim>\<open>body["model"].split("/")\<close> (AttributeError when the model is not a string), and
  the lines above.
\<close>

definition pipe_try :: "env \<Rightarrow> valves \<Rightarrow> json \<Rightarrow> json \<Rightarrow> json list \<Rightarrow> exn + request" where
  "pipe_try E v body system_message messages =
     (case validate_total_image_size messages of
        Inl e \<Rightarrow> Inl e
      | Inr ok \<Rightarrow>
          (case subscript body ''model'' of
             Inl e \<Rightarrow> Inl e
           | Inr m \<Rightarrow>
               (case body of
                  JObj kvs \<Rightarrow>
                    (case m of
                       JStr model \<Rightarrow> build E v kvs system_message messages model
                     | _ \<Rightarrow> Inl AttributeError)
                | _ \<Rightarrow> Inl TypeError)))"

text \<open>
  \<^verbatim>\<open>pipe\<close> up to the point where the request is sent. \<open>Inl\<close> is a request refused:
  \<^verbatim>\<open>pipe\<close> returns the error dict and never reaches the code that opens a
  connection. \<open>pipe_prepare\<close> is \<^verbatim>\<open>pipe\<close> for a given result of
  \<^verbatim>\<open>pop_system_message(body["messages"])\<close>.
\<close>

datatype refusal = KeyRequired | Raised exn

definition pipe_prepare :: "env \<Rightarrow> valves \<Rightarrow> json \<Rightarrow> json \<Rightarrow> json list \<Rightarrow> refusal + request" where
  "pipe_prepare E v body system_message messages =
     (if ANTHROPIC_API_KEY v = [] then Inl KeyRequired
      else
        (case pipe_try E v body system_message messages of
           Inl e \<Rightarrow> Inl (Raised e)
         | Inr r \<Rightarrow> Inr r))"

definition pipe :: "env \<Rightarrow> valves \<Rightarrow> json \<Rightarrow> refusal + request" where
  "pipe E v body =
     (if ANTHROPIC_API_KEY v = [] then Inl KeyRequired
      else
        (case subscript body ''messages'' of
           Inl e \<Rightarrow> Inl (Raised e)
         | Inr body_messages \<Rightarrow>
             (case pop_system_message E body_messages of
                Inl e \<Rightarrow> Inl (Raised e)
              | Inr (system_message, messages) \<Rightarrow>
                  pipe_prepare E v body system_message messages)))"

text \<open>
  A dict with one key set: \<open>put k x kvs\<close> is \<open>kvs\<close> after \<^verbatim>\<open>kvs[k] = x\<close>.
\<close>

fun put :: "string \<Rightarrow> json \<Rightarrow> (string \<times> json) list \<Rightarrow> (string \<times> json) list" where
  "put k x [] = [(k, x)]"
| "put k x (kv # kvs) = (if fst kv = k then (k, x) # kvs else kv # put k x kvs)"

text \<open>
  The images a message list holds, said without the loops: the base64 text of every
  \<^verbatim>\<open>image_url\<close> item whose URL is a \<^verbatim>\<open>data:image\<close> URI with a comma, and the decoded
  size the code takes for one.
\<close>

definition item_image :: "json \<Rightarrow> string list" where
  "item_image item =
     (case item of
        JObj kvs \<Rightarrow>
          (if map_of kvs ''type'' = Some (JStr ''image_url'') then
             (case map_of kvs ''image_url'' of
                Some (JObj iu) \<Rightarrow>
                  (case map_of iu ''url'' of
                     Some (JStr url) \<Rightarrow>
                       if startswith url ''data:image'' then
                         (case split_once CHR '','' url of
                            Some (mime, base64_data) \<Rightarrow> [base64_data]
                          | None \<Rightarrow> [])
                       else []
                   | _ \<Rightarrow> [])
              | _ \<Rightarrow> [])
           else [])
      | _ \<Rightarrow> [])"

definition message_images :: "json \<Rightarrow> string list" where
  "message_images message =
     (case message of
        JObj kvs \<Rightarrow>
          (case map_of kvs ''content'' of
             Some (JArr items) \<Rightarrow> concat (map item_image items)
           | _ \<Rightarrow> [])
      | _ \<Rightarrow> [])"

definition data_uri_images :: "json list \<Rightarrow> string list" where
  "data_uri_images messages = concat (map message_images messages)"

definition decoded_size :: "string \<Rightarrow> rat" where
  "decoded_size base64_data = of_nat (length base64_data) * 3 / 4"

definition total_decoded_size :: "json list \<Rightarrow> rat" where
  "total_decoded_size messages = sum_list (map decoded_size (data_uri_images messages))"

section \<open>The retry wrapper\<close>

text \<open>
  \<^verbatim>\<open>_send_request\<close>. The network is a function from the number of the POST (from 0)
  to what happens: the POST raises, or a response arrives with a status, headers
  (names in lower case) and a body whose reading may raise. The result records what
  the caller gets (the exception that propagates, or the response wrapper whose
  \<^verbatim>\<open>json()\<close> parses its text), the arguments of \<^verbatim>\<open>asyncio.sleep\<close> in order, and the
  number of POSTs made.
\<close>

record response =
  resp_status :: nat
  resp_headers :: "(string \<times> string) list"
  resp_text :: "exn + string"

datatype attempt = Raises exn | Responds response

record wrapper =
  status_code :: nat
  wrapper_headers :: "(string \<times> string) list"
  wrapper_text :: string

record sent =
  outcome :: "exn + wrapper"
  sleeps :: "int list"
  posts :: nat

text \<open>
  \<^verbatim>\<open>int(response.headers.get("retry-after", base_delay * (2**retry_count)))\<close>, with
  \<^verbatim>\<open>base_delay\<close> 1: ValueError for a header that is no integer numeral.
\<close>

definition retry_after_of :: "env \<Rightarrow> response \<Rightarrow> nat \<Rightarrow> exn + int" where
  "retry_after_of E r retry_count =
     (case map_of (resp_headers r) ''retry-after'' of
        None \<Rightarrow> Inr (1 * 2 ^ retry_count)
      | Some s \<Rightarrow> (case py_int E s of None \<Rightarrow> Inl (IntLiteralError s) | Some n \<Rightarrow> Inr n))"

function send_loop :: "env \<Rightarrow> (nat \<Rightarrow> attempt) \<Rightarrow> nat \<Rightarrow> int list \<Rightarrow> sent" where
  "send_loop E net retry_count slept =
     (if retry_count < 3 then
        (case net retry_count of
           Raises e \<Rightarrow> \<lparr>outcome = Inl e, sleeps = slept, posts = retry_count + 1\<rparr>
         | Responds r \<Rightarrow>
             if resp_status r = 429 then
               (case retry_after_of E r retry_count of
                  Inl e \<Rightarrow> \<lparr>outcome = Inl e, sleeps = slept, posts = retry_count + 1\<rparr>
                | Inr retry_after \<Rightarrow>
                    (case sleep E retry_after of
                       Some e \<Rightarrow> \<lparr>outcome = Inl e, sleeps = slept, posts = retry_count + 1\<rparr>
                     | None \<Rightarrow> send_loop E net (retry_count + 1) (slept @ [retry_after])))
             else
               (case resp_text r of
                  Inl e \<Rightarrow> \<lparr>outcome = Inl e, sleeps = slept, posts = retry_count + 1\<rparr>
                | Inr response_text \<Rightarrow>
                    \<lparr>outcome = Inr \<lparr>status_code = resp_status r,
                                    wrapper_headers = resp_headers r,
                                    wrapper_text = response_text\<rparr>,
                     sleeps = slept, posts = retry_count + 1\<rparr>))
      else
        \<lparr>outcome = Inr \<lparr>status_code = 429, wrapper_headers = [],
                        wrapper_text = ''Max retries exceeded''\<rparr>,
         sleeps = slept, posts = retry_count\<rparr>)"
  by pat_completeness auto
termination
  by (relation "measure (\<lambda>(E, net, retry_count, slept). 3 - retry_count)") auto

declare send_loop.simps [simp del]

definition send_request :: "env \<Rightarrow> (nat \<Rightarrow> attempt) \<Rightarrow> sent" where
  "send_request E net = send_loop E net 0 []"

text \<open>
  An answer to POST number \<open>i\<close> that the loop retries: status 429, a delay that
  \<^verbatim>\<open>int()\<close> yields (from the \<^verbatim>\<open>retry-after\<close> header, or \<open>1 * 2^i\<close> without one) and
  that \<^verbatim>\<open>asyncio.sleep\<close> accepts; and that delay.
\<close>

definition rate_limited :: "env \<Rightarrow> attempt \<Rightarrow> nat \<Rightarrow> bool" where
  "rate_limited E a i =
     (case a of
        Raises e \<Rightarrow> False
      | Responds r \<Rightarrow>
          resp_status r = 429 \<and>
          (case retry_after_of E r i of Inl e \<Rightarrow> False | Inr d \<Rightarrow> sleep E d = None))"

definition retry_delay :: "env \<Rightarrow> attempt \<Rightarrow> nat \<Rightarrow> int" where
  "retry_delay E a i =
     (case a of
        Raises e \<Rightarrow> 0
      | Responds r \<Rightarrow> (case retry_after_of E r i of Inl e \<Rightarrow> 0 | Inr d \<Rightarrow> d))"

section \<open>Example requests and networks\<close>

text \<open>
  Message lists for the image checks: 21 images of 6990000 base64 characters
  (5242500 bytes each, under the 5 MB limit of one image), and 101 images of four
  characters.
\<close>

definition image_item :: "string \<Rightarrow> json" where
  "image_item url = JObj [(''type'', JStr ''image_url''), (''image_url'', JObj [(''url'', JStr url)])]"

definition user_message :: "json list \<Rightarrow> json" where
  "user_message items = JObj [(''role'', JStr ''user''), (''content'', JArr items)]"

definition png_uri :: "string \<Rightarrow> string" where
  "png_uri base64_data = ''data:image/png;base64,'' @ base64_data"

definition large_images :: "json list" where
  "large_images =
     [user_message (JObj [(''type'', JStr ''text''), (''text'', JStr ''Compare these.'')] #
        replicate 21 (image_item (png_uri (replicate 6990000 (CHR ''A'')))))]"

definition many_images :: "json list" where
  "many_images = [user_message (replicate 101 (image_item (png_uri ''AAAA'')))]"

text \<open>
  Request bodies: a user message, a body that asks the thinking variant for 20000
  tokens, and the same body with a temperature that is no number.
\<close>

definition hi_message :: json where
  "hi_message = JObj [(''role'', JStr ''user''), (''content'', JStr ''Hi'')]"

definition thinking_body :: "(string \<times> json) list" where
  "thinking_body =
     [(''model'', JStr ''api/claude-3-5-sonnet-latest-thinking''),
      (''messages'', JArr [hi_message]),
      (''max_tokens'', JInt 20000)]"

definition hot_body :: "(string \<times> json) list" where
  "hot_body = thinking_body @ [(''temperature'', JStr ''hot'')]"

definition test_valves :: valves where
  "test_valves = \<lparr>ANTHROPIC_API_KEY = ''sk-test'', THINKING_BUDGET_TOKENS = 16000\<rparr>"

text \<open>
  Networks for the retry wrapper: a 429 with \<^verbatim>\<open>retry-after: 2\<close> and then a 200; a
  429 on every POST, the first with \<^verbatim>\<open>retry-after: 2\<close>; a 429 and then a connection
  error.
\<close>

definition limited_then_ok :: "nat \<Rightarrow> attempt" where
  "limited_then_ok i =
     (if i = 0 then
        Responds \<lparr>resp_status = 429, resp_headers = [(''retry-after'', ''2'')],
                  resp_text = Inr ''rate limited''\<rparr>
      else
        Responds \<lparr>resp_status = 200, resp_headers = [(''x-request-id'', ''req_1'')],
                  resp_text = Inr ''{}''\<rparr>)"

definition always_limited :: "nat \<Rightarrow> attempt" where
  "always_limited i =
     Responds \<lparr>resp_status = 429,
               resp_headers = (if i = 0 then [(''retry-after'', ''2'')] else []),
               resp_text = Inr ''rate limited''\<rparr>"

definition limited_then_down :: "nat \<Rightarrow> attempt" where
  "limited_then_down i =
     (if i = 0 then
        Responds \<lparr>resp_status = 429, resp_headers = [], resp_text = Inr ''rate limited''\<rparr>
      else Raises (ClientError ''Cannot connect to host''))"

text \<open>
  A 429 on every POST whose \<^verbatim>\<open>retry-after\<close> is an HTTP date, and one whose
  \<^verbatim>\<open>retry-after\<close> is the numeral of \<open>10^400\<close>.
\<close>

definition limited_with_date :: "nat \<Rightarrow> attempt" where
  "limited_with_date i =
     Responds \<lparr>resp_status = 429,
               resp_headers = [(''retry-after'', ''Wed, 21 Oct 2015 07:28:00 GMT'')],
               resp_text = Inr ''rate limited''\<rparr>"

definition limited_with_huge :: "nat \<Rightarrow> attempt" where
  "limited_with_huge i =
     Responds \<lparr>resp_status = 429,
               resp_headers = [(''retry-after'', CHR ''1'' # replicate 400 (CHR ''0''))],
               resp_text = Inr ''rate limited''\<rparr>"

section \<open>Properties of the streaming translator\<close>

subsection \<open>Single lines\<close>

lemma process_line_event:
  "event_of E l = Some d \<Longrightarrow> process_line E model st l = handle_event E model st d"
  by (auto simp: event_of_def process_line_def split: if_splits sum.splits)

lemma delta_ofD:
  assumes "delta_of d kind = Some dl"
  shows "subscript d ''type'' = Inr (JStr ''content_block_delta'')"
    and "dict_get d ''delta'' (JObj []) = Inr dl"
    and "dict_get dl ''type'' JNull = Inr (JStr kind)"
proof -
  show a: "subscript d ''type'' = Inr (JStr ''content_block_delta'')"
    using assms unfolding delta_of_def by (simp split: if_splits)
  from assms a have b: "(case dict_get d ''delta'' (JObj []) of
           Inr dl \<Rightarrow> if dict_get dl ''type'' JNull = Inr (JStr kind) then Some dl else None
         | Inl e \<Rightarrow> None) = Some dl"
    unfolding delta_of_def by simp
  then show c: "dict_get d ''delta'' (JObj []) = Inr dl"
    by (cases "dict_get d ''delta'' (JObj [])") (simp_all split: if_splits)
  from b c show "dict_get dl ''type'' JNull = Inr (JStr kind)"
    by (simp split: if_splits)
qed

lemma handle_input_json_delta:
  assumes "delta_of d ''input_json_delta'' = Some dl"
  shows "handle_event E model st d = on_input_json_delta E model st dl"
  using delta_ofD [OF assms] by (simp add: handle_event_def on_block_delta_def)

lemma handle_citations_delta:
  assumes "delta_of d ''citations_delta'' = Some dl"
  shows "handle_event E model st d = on_citations_delta E model st dl"
  using delta_ofD [OF assms] by (simp add: handle_event_def on_block_delta_def)

lemma delta_of_dict:
  "delta_of d kind = Some dl \<Longrightarrow> \<exists>kvs. dl = JObj kvs"
  by (cases dl) (auto simp: delta_of_def dict_get_def split: if_splits sum.splits)

lemma chunk_choice_delta:
  "chunk_choice (create_openai_tool_call_chunk E n model tc content fr) ''delta'' =
     Some (JObj ((if truthy tc then [(''tool_calls'', tc)] else []) @
                 (if truthy content then [(''content'', content)] else [])))"
  unfolding chunk_choice_def create_openai_tool_call_chunk_def by simp

lemma chunk_choice_finish:
  "chunk_choice (create_openai_tool_call_chunk E n model tc content fr) ''finish_reason'' = Some fr"
  unfolding chunk_choice_def create_openai_tool_call_chunk_def by simp

lemma show_int_3: "show_int 3 = ''3''"
  by (simp add: show_int_def show_nat.simps digit_char_def)

lemma ex_event_args1: "event_of example_env line_args1 = Some (ev_args ''[1, '')"
  by (simp add: event_of_def example_env_def example_loads_def startswith_def
      line_args1_def line_text_def line_tool_start_def)

lemma ex_event_citation: "event_of example_env line_citation = Some ev_citation"
  by (simp add: event_of_def example_env_def example_loads_def startswith_def
      line_args1_def line_args2_def line_text_def line_tool_start_def line_block_stop_def
      line_citation_def)


lemma ex_delta_args1:
  "delta_of (ev_args ''[1, '') ''input_json_delta'' =
     Some (JObj [(''type'', JStr ''input_json_delta''), (''partial_json'', JStr ''[1, '')])"
  by (simp add: delta_of_def ev_args_def subscript_def dict_get_def)

lemma ex_delta_citation:
  "delta_of ev_citation ''citations_delta'' =
     Some (JObj [(''type'', JStr ''citations_delta''),
        (''citation'', JObj [(''type'', JStr ''char_location''), (''document_index'', JInt 3),
           (''document_title'', JStr ''Guide'')])])"
  by (simp add: delta_of_def ev_citation_def subscript_def dict_get_def)

text \<open>
  C10. An \<^verbatim>\<open>input_json_delta\<close> event that arrives while no tool call is being
  accumulated (\<open>current_tool_use\<close> is \<^verbatim>\<open>None\<close>), or whose \<^verbatim>\<open>partial_json\<close> is the
  empty string or absent, yields no chunk and leaves the state as it was: the fragment
  is neither forwarded nor added to \<open>tool_use_input_json\<close>, and the loop goes on with
  the next line.
\<close>

theorem input_json_delta_dropped:
  assumes "event_of E l = Some d"
    and "delta_of d ''input_json_delta'' = Some dl"
    and "current_tool_use st = None \<or> dict_get dl ''partial_json'' (JStr []) = Inr (JStr [])"
  shows "process_line E model st l = Inr (Next st []) \<and>
         stream_lines E model rid st (Line l # rest) = stream_lines E model rid st rest"
proof -
  obtain kvs where dl: "dl = JObj kvs"
    using delta_of_dict [OF assms(2)] by blast
  have "on_input_json_delta E model st dl = Inr (Next st [])"
    using assms(3) unfolding dl by (auto simp: on_input_json_delta_def dict_get_def)
  then have "process_line E model st l = Inr (Next st [])"
    using process_line_event [OF assms(1)] handle_input_json_delta [OF assms(2)] by simp
  then show ?thesis by simp
qed

theorem input_json_delta_dropped_witness:
  "event_of example_env line_args1 = Some (ev_args ''[1, '') \<and>
   current_tool_use init_state = None \<and>
   process_line example_env (JStr ''claude-sonnet-4-0'') init_state line_args1 =
     Inr (Next init_state []) \<and>
   stream_lines example_env (JStr ''claude-sonnet-4-0'') None init_state
     [Line line_args1, Line line_args1] = []"
proof -
  have idle: "current_tool_use init_state = None"
    by (simp add: init_state_def)
  have "process_line example_env (JStr ''claude-sonnet-4-0'') init_state line_args1 =
          Inr (Next init_state []) \<and>
        stream_lines example_env (JStr ''claude-sonnet-4-0'') None init_state
          (Line line_args1 # [Line line_args1]) =
        stream_lines example_env (JStr ''claude-sonnet-4-0'') None init_state [Line line_args1]"
    using input_json_delta_dropped [OF ex_event_args1 ex_delta_args1, of init_state] idle
    by blast
  then show ?thesis
    using ex_event_args1 idle by simp
qed

text \<open>
  C9. A \<^verbatim>\<open>citations_delta\<close> event whose citation is a non-empty object, with
  \<^verbatim>\<open>document_index\<close> \<open>i\<close> (0 when absent) and \<^verbatim>\<open>document_title\<close> \<open>t\<close> (the empty
  string when absent), yields exactly one chunk, a content chunk with no finish
  reason, whose content is a space and the bracketed marker: \<^verbatim>\<open>[i: t]\<close> when the title
  is truthy (a string that is not empty), \<^verbatim>\<open>[i]\<close> otherwise, with \<open>i\<close> and \<open>t\<close> as an
  f-string prints them (an integer in decimal, a string as it is).
\<close>

theorem citation_marker_chunk:
  assumes "event_of E l = Some d"
    and "delta_of d ''citations_delta'' = Some dl"
    and "dict_get dl ''citation'' (JObj []) = Inr (JObj c)" and "c \<noteq> []"
    and "dict_get (JObj c) ''document_index'' (JInt 0) = Inr i"
    and "dict_get (JObj c) ''document_title'' (JStr []) = Inr t"
  shows "\<exists>chunk.
           stream_lines E model rid st (Line l # rest) =
             Chunk chunk # stream_lines E model rid (st\<lparr>clock_reads := clock_reads st + 2\<rparr>) rest \<and>
           chunk_choice chunk ''delta'' =
             Some (JObj [(''content'',
               JStr (if truthy t then '' ['' @ py_str E i @ '': '' @ py_str E t @ '']''
                     else '' ['' @ py_str E i @ '']''))]) \<and>
           chunk_choice chunk ''finish_reason'' = Some JNull \<and>
           py_str E (JInt n) = show_int n \<and> py_str E (JStr s) = s \<and>
           truthy (JStr s) = (s \<noteq> [])"
proof -
  define m where
    "m = (if truthy t then '' ['' @ py_str E i @ '': '' @ py_str E t @ '']''
          else '' ['' @ py_str E i @ '']'')"
  define chunk where
    "chunk = create_openai_tool_call_chunk E (clock_reads st) model JNull (JStr m) JNull"
  have ct: "cite_text E i t = m"
    by (simp add: cite_text_def m_def)
  have ne: "m \<noteq> []"
    by (simp add: m_def)
  have "on_citations_delta E model st dl =
          Inr (Next (st\<lparr>clock_reads := clock_reads st + 2\<rparr>) [Chunk chunk])"
    using assms(3-6) ct by (simp add: on_citations_delta_def chunk_def)
  then have "process_line E model st l =
          Inr (Next (st\<lparr>clock_reads := clock_reads st + 2\<rparr>) [Chunk chunk])"
    using process_line_event [OF assms(1)] handle_citations_delta [OF assms(2)] by simp
  then have 1: "stream_lines E model rid st (Line l # rest) =
             Chunk chunk # stream_lines E model rid (st\<lparr>clock_reads := clock_reads st + 2\<rparr>) rest"
    by simp
  have 2: "chunk_choice chunk ''delta'' = Some (JObj [(''content'', JStr m)])"
    unfolding chunk_def using ne by (simp add: chunk_choice_delta)
  have 3: "chunk_choice chunk ''finish_reason'' = Some JNull"
    unfolding chunk_def by (simp add: chunk_choice_finish)
  have 4: "py_str E (JInt n) = show_int n \<and> py_str E (JStr s) = s \<and>
           truthy (JStr s) = (s \<noteq> [])"
    by (simp add: py_str_def)
  from 1 2 3 4 show ?thesis unfolding m_def by blast
qed


theorem citation_marker_chunk_witness:
  "\<exists>chunk.
     stream_lines example_env (JStr ''claude-sonnet-4-0'') None init_state [Line line_citation] =
       [Chunk chunk] \<and>
     chunk_choice chunk ''delta'' = Some (JObj [(''content'', JStr '' [3: Guide]'')]) \<and>
     chunk_choice chunk ''finish_reason'' = Some JNull"
  using citation_marker_chunk [OF ex_event_citation ex_delta_citation,
      of "[(''type'', JStr ''char_location''), (''document_index'', JInt 3),
           (''document_title'', JStr ''Guide'')]" "JInt 3" "JStr ''Guide''"
         "JStr ''claude-sonnet-4-0''" None init_state "[]"]
  by (simp add: dict_get_def py_str_def show_int_3)

subsection \<open>What one line does to the tracked state\<close>

lemma signal_of_chunk:
  "signal_of (Chunk (create_openai_tool_call_chunk E n model tc content fr)) =
     (if truthy tc then [ToolCalls tc] else if fr = JNull then [] else [FinishReason fr])"
  by (simp add: signal_of_def chunk_choice_delta chunk_choice_finish)

lemma signal_of_reasoning:
  "signal_of (Chunk (reasoning_chunk E n model t)) = []"
  by (simp add: signal_of_def chunk_choice_def reasoning_chunk_def)

lemma signals_simps:
  "signals [] = []" "signals (x # xs) = signal_of x @ signals xs"
  "signals (xs @ ys) = signals xs @ signals ys"
  by (simp_all add: signals_def)

lemma on_text_delta_Next:
  assumes "on_text_delta E model st dl = Inr (Next st' out)"
  shows "unchanged st st' \<and> signals out = [] \<and> (out = [] \<or> (\<exists>c. out = [Chunk c]))"
proof (cases "dict_get dl ''text'' (JStr [])")
  case (Inl e)
  then show ?thesis using assms by (simp add: on_text_delta_def)
next
  case (Inr tv)
  then show ?thesis using assms
    by (cases "truthy tv")
       (auto simp: on_text_delta_def unchanged_def signals_simps signal_of_chunk)
qed

lemma on_thinking_delta_Next:
  assumes "on_thinking_delta E model st dl = Inr (Next st' out)"
  shows "unchanged st st' \<and> signals out = [] \<and> (out = [] \<or> (\<exists>c. out = [Chunk c]))"
proof (cases "dict_get dl ''thinking'' (JStr [])")
  case (Inl e)
  then show ?thesis using assms by (simp add: on_thinking_delta_def)
next
  case (Inr tv)
  then show ?thesis using assms
    by (cases "truthy tv")
       (auto simp: on_thinking_delta_def unchanged_def signals_simps signal_of_reasoning)
qed

lemma cite_text_nonempty: "cite_text E i t \<noteq> []"
  by (simp add: cite_text_def)

lemma on_citations_delta_Next:
  assumes "on_citations_delta E model st dl = Inr (Next st' out)"
  shows "unchanged st st' \<and> signals out = [] \<and> (out = [] \<or> (\<exists>c. out = [Chunk c]))"
proof (cases "dict_get dl ''citation'' (JObj [])")
  case (Inl e)
  then show ?thesis using assms by (simp add: on_citations_delta_def)
next
  case (Inr c)
  note c = this
  show ?thesis
  proof (cases "truthy c")
    case False
    then show ?thesis using assms c
      by (auto simp: on_citations_delta_def unchanged_def signals_simps)
  next
    case True
    then show ?thesis using assms c
      by (auto simp: on_citations_delta_def unchanged_def signals_simps signal_of_chunk
          split: sum.splits)
  qed
qed

lemma on_input_json_delta_Next:
  assumes "on_input_json_delta E model st dl = Inr (Next st' out)"
  shows "unchanged st st' \<and> (out = [] \<or> (\<exists>c. out = [Chunk c])) \<and>
         signals out =
           (case current_tool_use st of
              None \<Rightarrow> []
            | Some tu \<Rightarrow>
                map (\<lambda>p. ToolCalls (argument_tool_calls (tu_index tu) p))
                  (case dict_get dl ''partial_json'' (JStr []) of
                     Inr p \<Rightarrow> if truthy p then [p] else []
                   | Inl e \<Rightarrow> []))"
proof (cases "dict_get dl ''partial_json'' (JStr [])")
  case (Inl e)
  then show ?thesis using assms by (simp add: on_input_json_delta_def)
next
  case (Inr p)
  note p = this
  show ?thesis
  proof (cases "truthy p")
    case False
    then show ?thesis using assms p
      by (auto simp: on_input_json_delta_def unchanged_def signals_simps split: option.splits)
  next
    case True
    note t = this
    show ?thesis
    proof (cases "current_tool_use st")
      case None
      then show ?thesis using assms p t
        by (auto simp: on_input_json_delta_def unchanged_def signals_simps)
    next
      case (Some tu)
      have tc: "truthy (argument_tool_calls (tu_index tu) p)"
        by (simp add: argument_tool_calls_def)
      from assms p t Some obtain s where s: "p = JStr s"
        by (cases p) (simp_all add: on_input_json_delta_def)
      show ?thesis using assms p t Some tc unfolding s
        by (auto simp: on_input_json_delta_def unchanged_def signals_simps signal_of_chunk)
    qed
  qed
qed

lemma on_block_delta_Next:
  assumes "on_block_delta E model st d = Inr (Next st' out)"
    and ty: "subscript d ''type'' = Inr (JStr ''content_block_delta'')"
  shows "unchanged st st' \<and> (out = [] \<or> (\<exists>c. out = [Chunk c])) \<and>
         signals out =
           (case current_tool_use st of
              None \<Rightarrow> []
            | Some tu \<Rightarrow>
                map (\<lambda>p. ToolCalls (argument_tool_calls (tu_index tu) p)) (event_fragment d))"
proof (cases "dict_get d ''delta'' (JObj [])")
  case (Inl e)
  then show ?thesis using assms by (simp add: on_block_delta_def)
next
  case (Inr dl)
  note dl = this
  show ?thesis
  proof (cases "dict_get dl ''type'' JNull")
    case (Inl e)
    then show ?thesis using assms dl by (simp add: on_block_delta_def)
  next
    case (Inr kind)
    note kind = this
    have quiet: "unchanged st st' \<and> (out = [] \<or> (\<exists>c. out = [Chunk c])) \<and> signals out = []
        \<Longrightarrow> kind \<noteq> JStr ''input_json_delta'' \<Longrightarrow> ?thesis"
      using ty dl kind
      by (auto simp: event_fragment_def delta_of_def split: option.splits)
    consider (tx) "kind = JStr ''text_delta''"
      | (ij) "kind = JStr ''input_json_delta''"
      | (th) "kind = JStr ''thinking_delta''"
      | (ci) "kind = JStr ''citations_delta''"
      | (other) "kind \<noteq> JStr ''text_delta''" "kind \<noteq> JStr ''input_json_delta''"
          "kind \<noteq> JStr ''thinking_delta''" "kind \<noteq> JStr ''citations_delta''"
      by blast
    then show ?thesis
    proof cases
      case tx
      then have "on_text_delta E model st dl = Inr (Next st' out)"
        using assms(1) dl kind by (simp add: on_block_delta_def)
      from on_text_delta_Next [OF this] tx show ?thesis
        by (intro quiet) simp_all
    next
      case ij
      then have h: "on_input_json_delta E model st dl = Inr (Next st' out)"
        using assms(1) dl kind by (simp add: on_block_delta_def)
      have ef: "event_fragment d =
              (case dict_get dl ''partial_json'' (JStr []) of
                 Inr p \<Rightarrow> if truthy p then [p] else []
               | Inl e \<Rightarrow> [])"
        using ty dl kind ij by (simp add: event_fragment_def delta_of_def)
      from on_input_json_delta_Next [OF h] show ?thesis unfolding ef .
    next
      case th
      then have "on_thinking_delta E model st dl = Inr (Next st' out)"
        using assms(1) dl kind by (simp add: on_block_delta_def)
      from on_thinking_delta_Next [OF this] th show ?thesis
        by (intro quiet) simp_all
    next
      case ci
      then have "on_citations_delta E model st dl = Inr (Next st' out)"
        using assms(1) dl kind by (simp add: on_block_delta_def)
      from on_citations_delta_Next [OF this] ci show ?thesis
        by (intro quiet) simp_all
    next
      case other
      then have "st' = st" "out = []"
        using assms(1) dl kind by (simp_all add: on_block_delta_def)
      then show ?thesis using other
        by (intro quiet) (simp_all add: unchanged_def signals_simps)
    qed
  qed
qed

lemma on_block_start_Next:
  assumes "on_block_start E model st d = Inr (Next st' out)"
    and ty: "subscript d ''type'' = Inr (JStr ''content_block_start'')"
  shows "(tool_use_block d = None \<and> st' = st \<and> out = []) \<or>
         (\<exists>cb ident name.
            tool_use_block d = Some cb \<and>
            dict_get cb ''id'' (JStr (''call_'' @ show_nat (tool_call_index st))) = Inr ident \<and>
            dict_get cb ''name'' (JStr []) = Inr name \<and>
            st' = st\<lparr>has_tool_calls := True,
                     current_tool_use :=
                       Some \<lparr>tu_id = ident, tu_name = name, tu_index = tool_call_index st\<rparr>,
                     tool_use_input_json := [],
                     clock_reads := clock_reads st + 2\<rparr> \<and>
            out = [Chunk (create_openai_tool_call_chunk E (clock_reads st) model
                     (initial_tool_calls (tool_call_index st) ident name) JNull JNull)])"
proof (cases "dict_get d ''content_block'' (JObj [])")
  case (Inl e)
  then show ?thesis using assms by (simp add: on_block_start_def)
next
  case (Inr cb)
  note cb = this
  show ?thesis
  proof (cases "dict_get cb ''type'' JNull")
    case (Inl e)
    then show ?thesis using assms cb by (simp add: on_block_start_def)
  next
    case (Inr bt)
    note bt = this
    show ?thesis
    proof (cases "bt = JStr ''tool_use''")
      case False
      then show ?thesis using assms cb bt
        by (simp add: on_block_start_def tool_use_block_def)
    next
      case True
      then have tb: "tool_use_block d = Some cb"
        using ty cb bt by (simp add: tool_use_block_def)
      from assms(1) cb bt True tb show ?thesis
        by (auto simp: on_block_start_def split: sum.splits)
    qed
  qed
qed

lemma handle_event_Next:
  assumes "handle_event E model st d = Inr (Next st' out)"
  obtains
    (start) "subscript d ''type'' = Inr (JStr ''content_block_start'')"
      "on_block_start E model st d = Inr (Next st' out)"
  | (delta) "subscript d ''type'' = Inr (JStr ''content_block_delta'')"
      "on_block_delta E model st d = Inr (Next st' out)"
  | (stop) "subscript d ''type'' = Inr (JStr ''content_block_stop'')"
      "on_block_stop st = Next st' out"
  | (other) "subscript d ''type'' \<noteq> Inr (JStr ''content_block_start'')"
      "subscript d ''type'' \<noteq> Inr (JStr ''content_block_delta'')"
      "subscript d ''type'' \<noteq> Inr (JStr ''content_block_stop'')"
      "st' = st" "out = []"
proof (cases "subscript d ''type''")
  case (Inl e)
  then show ?thesis using assms by (simp add: handle_event_def)
next
  case (Inr ty)
  consider (a) "ty = JStr ''content_block_start''"
    | (b) "ty = JStr ''content_block_delta''"
    | (c) "ty = JStr ''content_block_stop''"
    | (d) "ty = JStr ''message_stop''"
    | (e) "ty \<noteq> JStr ''content_block_start''" "ty \<noteq> JStr ''content_block_delta''"
        "ty \<noteq> JStr ''content_block_stop''" "ty \<noteq> JStr ''message_stop''"
    by blast
  then show ?thesis
  proof cases
    case a
    then show ?thesis using assms Inr start by (simp add: handle_event_def)
  next
    case b
    then show ?thesis using assms Inr delta by (simp add: handle_event_def)
  next
    case c
    then show ?thesis using assms Inr stop by (simp add: handle_event_def)
  next
    case d
    then show ?thesis using assms Inr by (simp add: handle_event_def on_message_stop_def)
  next
    case e
    then show ?thesis using assms Inr other by (simp add: handle_event_def)
  qed
qed

lemma process_line_None:
  assumes "event_of E l = None" and "process_line E model st l = Inr (Next st' out)"
  shows "st' = st \<and> out = []"
proof (cases "l \<noteq> [] \<and> startswith l ''data: ''")
  case False
  then show ?thesis using assms(2) by (auto simp: process_line_def)
next
  case True
  then obtain e where "json_loads E (drop 6 l) = Inl e"
    using assms(1) by (cases "json_loads E (drop 6 l)") (simp_all add: event_of_def)
  then show ?thesis using assms(2) True
    by (cases "e = JSONDecodeError") (simp_all add: process_line_def)
qed

lemma on_block_stop_Next:
  assumes "on_block_stop st = Next st' out"
  shows "out = [] \<and> has_tool_calls st' = has_tool_calls st \<and> current_tool_use st' = None \<and>
         (current_tool_use st = None \<longrightarrow> tool_call_index st' = tool_call_index st)"
  using assms by (cases "current_tool_use st") (auto simp: on_block_stop_def)

lemma line_effect:
  assumes "process_line E model st l = Inr (Next st' out)"
  shows
    "(\<exists>d cb ident name.
        event_of E l = Some d \<and> tool_use_block d = Some cb \<and>
        dict_get cb ''id'' (JStr (''call_'' @ show_nat (tool_call_index st))) = Inr ident \<and>
        dict_get cb ''name'' (JStr []) = Inr name \<and>
        st' = st\<lparr>has_tool_calls := True,
                 current_tool_use :=
                   Some \<lparr>tu_id = ident, tu_name = name, tu_index = tool_call_index st\<rparr>,
                 tool_use_input_json := [],
                 clock_reads := clock_reads st + 2\<rparr> \<and>
        out = [Chunk (create_openai_tool_call_chunk E (clock_reads st) model
                 (initial_tool_calls (tool_call_index st) ident name) JNull JNull)]) \<or>
     (\<not> starts_tool_use E l \<and> is_block_stop E l \<and> out = [] \<and>
        has_tool_calls st' = has_tool_calls st \<and> current_tool_use st' = None \<and>
        (current_tool_use st = None \<longrightarrow> tool_call_index st' = tool_call_index st)) \<or>
     (\<not> starts_tool_use E l \<and> \<not> is_block_stop E l \<and> unchanged st st' \<and>
        (out = [] \<or> (\<exists>c. out = [Chunk c])) \<and>
        signals out =
          (case current_tool_use st of
             None \<Rightarrow> []
           | Some tu \<Rightarrow>
               map (\<lambda>p. ToolCalls (argument_tool_calls (tu_index tu) p)) (fragment E l)))"
proof (cases "event_of E l")
  case None
  with process_line_None [OF None assms] show ?thesis
    by (auto simp: starts_tool_use_def is_block_stop_def fragment_def unchanged_def
        signals_simps split: option.splits)
next
  case (Some d)
  note d = this
  have h: "handle_event E model st d = Inr (Next st' out)"
    using assms process_line_event [OF d] by simp
  have cls: "starts_tool_use E l = (tool_use_block d \<noteq> None)"
    "is_block_stop E l = (subscript d ''type'' = Inr (JStr ''content_block_stop''))"
    "fragment E l = event_fragment d"
    using d by (simp_all add: starts_tool_use_def is_block_stop_def fragment_def)
  from h show ?thesis
  proof (cases rule: handle_event_Next)
    case start
    from on_block_start_Next [OF start(2) start(1)] show ?thesis
    proof
      assume a: "tool_use_block d = None \<and> st' = st \<and> out = []"
      have "event_fragment d = []"
        using start(1) by (simp add: event_fragment_def delta_of_def)
      with a start(1) cls show ?thesis
        by (auto simp: unchanged_def signals_simps split: option.splits)
    next
      assume "\<exists>cb ident name.
            tool_use_block d = Some cb \<and>
            dict_get cb ''id'' (JStr (''call_'' @ show_nat (tool_call_index st))) = Inr ident \<and>
            dict_get cb ''name'' (JStr []) = Inr name \<and>
            st' = st\<lparr>has_tool_calls := True,
                     current_tool_use :=
                       Some \<lparr>tu_id = ident, tu_name = name, tu_index = tool_call_index st\<rparr>,
                     tool_use_input_json := [],
                     clock_reads := clock_reads st + 2\<rparr> \<and>
            out = [Chunk (create_openai_tool_call_chunk E (clock_reads st) model
                     (initial_tool_calls (tool_call_index st) ident name) JNull JNull)]"
      with d show ?thesis by blast
    qed
  next
    case delta
    have nb: "tool_use_block d = None"
      using delta(1) by (simp add: tool_use_block_def)
    from on_block_delta_Next [OF delta(2) delta(1)] nb delta(1) show ?thesis
      unfolding cls by simp
  next
    case stop
    have nb: "tool_use_block d = None"
      using stop(1) by (simp add: tool_use_block_def)
    from on_block_stop_Next [OF stop(2)] nb stop(1) cls show ?thesis
      by simp
  next
    case other
    have nb: "tool_use_block d = None" "event_fragment d = []"
      using other(1,2) by (simp_all add: tool_use_block_def event_fragment_def delta_of_def)
    with other cls show ?thesis
      by (auto simp: unchanged_def signals_simps split: option.splits)
  qed
qed

subsection \<open>Whole streams\<close>

lemma run_lines_stream:
  "run_lines E model st ls = Some (st', out) \<Longrightarrow>
   stream_lines E model rid st (map Line ls @ rest) = out @ stream_lines E model rid st' rest"
proof (induction ls arbitrary: st out)
  case Nil
  then show ?case by simp
next
  case (Cons l ls)
  from Cons.prems obtain st1 out1 out2 where
    p: "process_line E model st l = Inr (Next st1 out1)" and
    r: "run_lines E model st1 ls = Some (st', out2)" and
    e: "out = out1 @ out2"
    by (auto split: sum.splits step.splits option.splits)
  from Cons.IH [OF r] e p show ?case by simp
qed

lemma run_lines_Cons:
  assumes "run_lines E model st (l # ls) = Some (st', out)"
  obtains st1 out1 out2 where
    "process_line E model st l = Inr (Next st1 out1)"
    "run_lines E model st1 ls = Some (st', out2)"
    "out = out1 @ out2"
  using assms by (auto split: sum.splits step.splits option.splits)

lemma run_lines_append:
  "run_lines E model st (xs @ ys) = Some (st', out) \<Longrightarrow>
   \<exists>st1 out1 out2.
     run_lines E model st xs = Some (st1, out1) \<and>
     run_lines E model st1 ys = Some (st', out2) \<and> out = out1 @ out2"
proof (induction xs arbitrary: st out)
  case Nil
  then show ?case by simp
next
  case (Cons x xs)
  from Cons.prems have "run_lines E model st (x # (xs @ ys)) = Some (st', out)"
    by simp
  then obtain sa oa ob where
    p: "process_line E model st x = Inr (Next sa oa)" and
    r: "run_lines E model sa (xs @ ys) = Some (st', ob)" and
    e: "out = oa @ ob"
    by (rule run_lines_Cons)
  from Cons.IH [OF r] obtain st1 o1 o2 where
    a: "run_lines E model sa xs = Some (st1, o1)" and
    b: "run_lines E model st1 ys = Some (st', o2)" and
    c: "ob = o1 @ o2"
    by blast
  have "run_lines E model st (x # xs) = Some (st1, oa @ o1)"
    using p a by simp
  with b e c show ?case by simp
qed

lemma line_has_tool_calls:
  assumes "process_line E model st l = Inr (Next st' out)"
  shows "has_tool_calls st' = (has_tool_calls st \<or> starts_tool_use E l)"
  using line_effect [OF assms]
  by (auto simp: starts_tool_use_def unchanged_def)

lemma line_no_done:
  assumes "process_line E model st l = Inr (Next st' out)"
  shows "Done \<notin> set out"
  using line_effect [OF assms] by auto

lemma run_lines_has_tool_calls:
  "run_lines E model st ls = Some (st', out) \<Longrightarrow>
   has_tool_calls st' = (has_tool_calls st \<or> (\<exists>l\<in>set ls. starts_tool_use E l))"
proof (induction ls arbitrary: st out)
  case Nil
  then show ?case by simp
next
  case (Cons l ls)
  from Cons.prems obtain st1 out1 out2 where
    p: "process_line E model st l = Inr (Next st1 out1)" and
    r: "run_lines E model st1 ls = Some (st', out2)" and
    e: "out = out1 @ out2"
    by (rule run_lines_Cons)
  from Cons.IH [OF r] line_has_tool_calls [OF p] show ?case by auto
qed

lemma run_lines_no_done:
  "run_lines E model st ls = Some (st', out) \<Longrightarrow> Done \<notin> set out"
proof (induction ls arbitrary: st out)
  case Nil
  then show ?case by simp
next
  case (Cons l ls)
  from Cons.prems obtain st1 out1 out2 where
    p: "process_line E model st l = Inr (Next st1 out1)" and
    r: "run_lines E model st1 ls = Some (st', out2)" and
    e: "out = out1 @ out2"
    by (rule run_lines_Cons)
  from Cons.IH [OF r] line_no_done [OF p] e show ?case by simp
qed

lemma message_stop_line:
  assumes "is_message_stop E l"
  shows "process_line E model st l = Inr (on_message_stop E model st)"
proof -
  from assms obtain d where d: "event_of E l = Some d"
    and ty: "subscript d ''type'' = Inr (JStr ''message_stop'')"
    by (auto simp: is_message_stop_def split: option.splits)
  show ?thesis
    using process_line_event [OF d] ty by (simp add: handle_event_def)
qed

lemma stream_to_message_stop:
  assumes "run_lines E model init_state pre = Some (st, out)" and "is_message_stop E l"
  shows "stream_with_ui E model prev (Connected 200 rid body (map Line pre @ Line l # rest)) =
         out @ [Chunk (create_openai_tool_call_chunk E (clock_reads st) model JNull JNull
                   (JStr (if has_tool_calls st then ''tool_calls'' else ''stop''))), Done]"
  using run_lines_stream [OF assms(1)] message_stop_line [OF assms(2)]
  by (simp add: stream_with_ui_def on_message_stop_def)

lemma run_lines_idle:
  "current_tool_use st = None \<Longrightarrow> \<forall>l\<in>set ls. \<not> starts_tool_use E l \<Longrightarrow>
   run_lines E model st ls = Some (st', out) \<Longrightarrow>
   unchanged st st' \<and> signals out = []"
proof (induction ls arbitrary: st out)
  case Nil
  then show ?case by (simp add: unchanged_def signals_simps)
next
  case (Cons l ls)
  from Cons.prems(3) obtain st1 out1 out2 where
    p: "process_line E model st l = Inr (Next st1 out1)" and
    r: "run_lines E model st1 ls = Some (st', out2)" and
    e: "out = out1 @ out2"
    by (rule run_lines_Cons)
  have ns: "\<not> starts_tool_use E l" using Cons.prems(2) by simp
  have one: "unchanged st st1 \<and> signals out1 = []"
    using line_effect [OF p] ns Cons.prems(1)
    by (auto simp: starts_tool_use_def unchanged_def signals_simps)
  then have "current_tool_use st1 = None"
    using Cons.prems(1) by (simp add: unchanged_def)
  from Cons.IH [OF this _ r] Cons.prems(2) have "unchanged st1 st' \<and> signals out2 = []"
    by simp
  with one e show ?case
    by (simp add: unchanged_def signals_simps)
qed

lemma fragments_Cons:
  "fragments E (l # ls) = (if is_block_stop E l then [] else fragment E l @ fragments E ls)"
  by (simp add: fragments_def)

lemma run_lines_active:
  "current_tool_use st = Some tu \<Longrightarrow> \<forall>l\<in>set ls. \<not> starts_tool_use E l \<Longrightarrow>
   run_lines E model st ls = Some (st', out) \<Longrightarrow>
   signals out = map (\<lambda>p. ToolCalls (argument_tool_calls (tu_index tu) p)) (fragments E ls) \<and>
   has_tool_calls st' = has_tool_calls st"
proof (induction ls arbitrary: st out)
  case Nil
  then show ?case by (simp add: signals_simps fragments_def)
next
  case (Cons l ls)
  from Cons.prems(3) obtain st1 out1 out2 where
    p: "process_line E model st l = Inr (Next st1 out1)" and
    r: "run_lines E model st1 ls = Some (st', out2)" and
    e: "out = out1 @ out2"
    by (rule run_lines_Cons)
  have ns: "\<not> starts_tool_use E l" and nss: "\<forall>l\<in>set ls. \<not> starts_tool_use E l"
    using Cons.prems(2) by simp_all
  show ?case
  proof (cases "is_block_stop E l")
    case True
    then have one: "out1 = []" "has_tool_calls st1 = has_tool_calls st"
        "current_tool_use st1 = None"
      using line_effect [OF p] ns by (auto simp: starts_tool_use_def)
    from run_lines_idle [OF one(3) nss r] have "unchanged st1 st' \<and> signals out2 = []" .
    with one e True show ?thesis
      by (simp add: fragments_Cons signals_simps unchanged_def)
  next
    case False
    then have one: "unchanged st st1"
        "signals out1 =
           map (\<lambda>p. ToolCalls (argument_tool_calls (tu_index tu) p)) (fragment E l)"
      using line_effect [OF p] ns Cons.prems(1) by (auto simp: starts_tool_use_def)
    then have "current_tool_use st1 = Some tu"
      using Cons.prems(1) by (simp add: unchanged_def)
    from Cons.IH [OF this nss r] one e False show ?thesis
      by (simp add: fragments_Cons signals_simps unchanged_def)
  qed
qed

lemma show_nat_0: "show_nat 0 = ''0''"
  by (simp add: show_nat.simps digit_char_def)

lemma tool_use_start_line:
  assumes "event_of E l = Some d" and "tool_use_block d = Some cb"
    and "process_line E model st l = Inr (Next st' out)"
  shows "\<exists>ident name.
           dict_get cb ''id'' (JStr (''call_'' @ show_nat (tool_call_index st))) = Inr ident \<and>
           dict_get cb ''name'' (JStr []) = Inr name \<and>
           signals out = [ToolCalls (initial_tool_calls (tool_call_index st) ident name)] \<and>
           has_tool_calls st' \<and>
           (\<exists>tu. current_tool_use st' = Some tu \<and> tu_index tu = tool_call_index st)"
proof -
  have s: "starts_tool_use E l"
    using assms(1,2) by (simp add: starts_tool_use_def)
  have tc: "\<And>i a b. truthy (initial_tool_calls i a b)"
    by (simp add: initial_tool_calls_def)
  from line_effect [OF assms(3)] s assms(1,2) show ?thesis
    by (auto simp: signals_simps signal_of_chunk tc)
qed

subsection \<open>The example lines\<close>

lemma ex_event_text: "event_of example_env line_text = Some ev_text"
  by (simp add: event_of_def example_env_def example_loads_def startswith_def line_text_def)

lemma ex_event_tool_start: "event_of example_env line_tool_start = Some ev_tool_start"
  by (simp add: event_of_def example_env_def example_loads_def startswith_def
      line_text_def line_tool_start_def)

lemma ex_event_args2: "event_of example_env line_args2 = Some (ev_args ''2]'')"
  by (simp add: event_of_def example_env_def example_loads_def startswith_def
      line_text_def line_tool_start_def line_args1_def line_args2_def)

lemma ex_event_block_stop: "event_of example_env line_block_stop = Some ev_block_stop"
  by (simp add: event_of_def example_env_def example_loads_def startswith_def
      line_text_def line_tool_start_def line_args1_def line_args2_def line_block_stop_def)

lemma ex_event_message_stop: "event_of example_env line_message_stop = Some ev_message_stop"
  by (simp add: event_of_def example_env_def example_loads_def startswith_def
      line_text_def line_tool_start_def line_args1_def line_args2_def line_block_stop_def
      line_citation_def line_message_stop_def)

lemmas ex_events =
  ex_event_text ex_event_tool_start ex_event_args1 ex_event_args2 ex_event_block_stop
  ex_event_message_stop

lemma ex_tool_use_block:
  "tool_use_block ev_tool_start =
     Some (JObj [(''type'', JStr ''tool_use''), (''id'', JStr ''toolu_01''),
        (''name'', JStr ''get_weather''), (''input'', JObj [])])"
  "tool_use_block ev_text = None" "tool_use_block (ev_args s) = None"
  "tool_use_block ev_block_stop = None"
  by (simp_all add: tool_use_block_def ev_tool_start_def ev_text_def ev_args_def
      ev_block_stop_def subscript_def dict_get_def)

lemma ex_starts:
  "starts_tool_use example_env line_tool_start"
  "\<not> starts_tool_use example_env line_text"
  "\<not> starts_tool_use example_env line_args1"
  "\<not> starts_tool_use example_env line_args2"
  "\<not> starts_tool_use example_env line_block_stop"
  by (simp_all add: starts_tool_use_def ex_events ex_tool_use_block)

lemma ex_message_stop: "is_message_stop example_env line_message_stop"
  by (simp add: is_message_stop_def ex_events ev_message_stop_def subscript_def)

lemma ex_block_stop:
  "is_block_stop example_env line_block_stop"
  "\<not> is_block_stop example_env line_args1"
  "\<not> is_block_stop example_env line_args2"
  by (simp_all add: is_block_stop_def ex_events ev_block_stop_def ev_args_def subscript_def)

lemma ex_fragment:
  "fragment example_env line_args1 = [JStr ''[1, '']"
  "fragment example_env line_args2 = [JStr ''2]'']"
  by (simp_all add: fragment_def ex_events event_fragment_def delta_of_def ev_args_def
      subscript_def dict_get_def)

lemma ex_process:
  "process_line example_env model st line_text =
     Inr (Next (st\<lparr>clock_reads := clock_reads st + 2\<rparr>)
       [Chunk (create_openai_tool_call_chunk example_env (clock_reads st) model JNull
                 (JStr ''Hi'') JNull)])"
  "process_line example_env model st line_block_stop = Inr (on_block_stop st)"
  by (simp_all add: process_line_event ex_events handle_event_def on_block_delta_def
      on_text_delta_def ev_text_def ev_block_stop_def subscript_def dict_get_def)

lemma ex_process_start:
  "process_line example_env model st line_tool_start =
     Inr (Next
       (st\<lparr>has_tool_calls := True,
           current_tool_use :=
             Some \<lparr>tu_id = JStr ''toolu_01'', tu_name = JStr ''get_weather'',
                   tu_index = tool_call_index st\<rparr>,
           tool_use_input_json := [],
           clock_reads := clock_reads st + 2\<rparr>)
       [Chunk (create_openai_tool_call_chunk example_env (clock_reads st) model
          (initial_tool_calls (tool_call_index st) (JStr ''toolu_01'') (JStr ''get_weather''))
          JNull JNull)])"
  by (simp add: process_line_event ex_events handle_event_def on_block_start_def
      ev_tool_start_def subscript_def dict_get_def)

lemma ex_process_args:
  "current_tool_use st = Some tu \<Longrightarrow>
   process_line example_env model st line_args1 =
     Inr (Next
       (st\<lparr>tool_use_input_json := tool_use_input_json st @ ''[1, '',
           clock_reads := clock_reads st + 2\<rparr>)
       [Chunk (create_openai_tool_call_chunk example_env (clock_reads st) model
          (argument_tool_calls (tu_index tu) (JStr ''[1, '')) JNull JNull)])"
  "current_tool_use st = Some tu \<Longrightarrow>
   process_line example_env model st line_args2 =
     Inr (Next
       (st\<lparr>tool_use_input_json := tool_use_input_json st @ ''2]'',
           clock_reads := clock_reads st + 2\<rparr>)
       [Chunk (create_openai_tool_call_chunk example_env (clock_reads st) model
          (argument_tool_calls (tu_index tu) (JStr ''2]'')) JNull JNull)])"
  by (simp_all add: process_line_event ex_events handle_event_def on_block_delta_def
      on_input_json_delta_def ev_args_def subscript_def dict_get_def)

lemma ex_run_text:
  "\<exists>st out. run_lines example_env model init_state [line_text] = Some (st, out)"
  by (simp add: ex_process)

lemma ex_run_tool:
  "\<exists>st out.
     run_lines example_env model init_state
       [line_text, line_tool_start, line_args1, line_args2, line_block_stop] = Some (st, out)"
  by (simp add: ex_process ex_process_start ex_process_args on_block_stop_def)

subsection \<open>Streams of well-formed events\<close>

lemma handle_block_start:
  "\<exists>st' out. handle_event E model st (wire (ContentBlockStart i cb)) = Inr (Next st' out)"
  by (simp add: handle_event_def subscript_def on_block_start_def dict_get_def)

lemma handle_block_delta:
  "\<exists>st' out. handle_event E model st (wire (ContentBlockDelta i dl)) = Inr (Next st' out)"
proof -
  have "\<exists>st' out. on_block_delta E model st
          (JObj [(''type'', JStr ''content_block_delta''), (''index'', JInt i),
                 (''delta'', wire_delta dl)]) = Inr (Next st' out)"
  proof (cases dl)
    case (TextDelta s)
    then show ?thesis
      by (simp add: on_block_delta_def dict_get_def on_text_delta_def)
  next
    case (InputJsonDelta s)
    then show ?thesis
      by (cases "current_tool_use st")
        (simp_all add: on_block_delta_def dict_get_def on_input_json_delta_def)
  next
    case (ThinkingDelta s)
    then show ?thesis
      by (simp add: on_block_delta_def dict_get_def on_thinking_delta_def)
  next
    case (SignatureDelta s)
    then show ?thesis
      by (simp add: on_block_delta_def dict_get_def)
  next
    case (CitationsDelta c)
    then show ?thesis
      by (simp add: on_block_delta_def dict_get_def on_citations_delta_def)
  qed
  then show ?thesis
    by (simp add: handle_event_def subscript_def)
qed

lemma handle_block_stop:
  "\<exists>st' out. handle_event E model st (wire (ContentBlockStop i)) = Inr (Next st' out)"
  by (cases "current_tool_use st") (simp_all add: handle_event_def subscript_def on_block_stop_def)

lemma handle_other:
  assumes "passed_over kind"
  shows "handle_event E model st (wire (Other kind kvs)) = Inr (Next st [])"
  using assms by (auto simp: handle_event_def subscript_def passed_over_def)

lemma process_carried:
  assumes "carries E l ev" and "proper ev" and "ev \<noteq> MessageStop"
  shows "\<exists>st' out. process_line E model st l = Inr (Next st' out)"
proof -
  have "l \<noteq> []"
    using assms(1) by (auto simp: carries_def startswith_def)
  then have p: "process_line E model st l = handle_event E model st (wire ev)"
    using assms(1) by (simp add: process_line_def carries_def)
  show ?thesis
  proof (cases ev)
    case (ContentBlockStart i cb)
    then show ?thesis using p handle_block_start by simp
  next
    case (ContentBlockDelta i dl)
    then show ?thesis using p handle_block_delta by simp
  next
    case (ContentBlockStop i)
    then show ?thesis using p handle_block_stop by simp
  next
    case MessageStop
    then show ?thesis using assms(3) by simp
  next
    case (Other kind kvs)
    then have "passed_over kind"
      using assms(2) by (simp add: proper_def)
    from handle_other [OF this, of E model st kvs] show ?thesis
      using p Other by simp
  qed
qed

text \<open>
  The translator gets through every sequence of lines each of which is not a
  \<^verbatim>\<open>data: \<close> line or carries a proper event other than \<^verbatim>\<open>message_stop\<close>, from any
  state: no exception, and the loop is not left.
\<close>

lemma process_no_data:
  "\<not> startswith l ''data: '' \<Longrightarrow> process_line E model st l = Inr (Next st [])"
  by (simp add: process_line_def)

lemma run_lines_carried:
  assumes "\<forall>l\<in>set ls. \<not> startswith l ''data: '' \<or>
             (\<exists>ev. carries E l ev \<and> proper ev \<and> ev \<noteq> MessageStop)"
  shows "\<exists>st' out. run_lines E model st ls = Some (st', out)"
  using assms
proof (induction ls arbitrary: st)
  case Nil
  show ?case by simp
next
  case (Cons l ls)
  have "\<exists>st1 out1. process_line E model st l = Inr (Next st1 out1)"
  proof (cases "startswith l ''data: ''")
    case False
    then show ?thesis by (simp add: process_no_data)
  next
    case True
    with Cons.prems obtain ev where "carries E l ev" "proper ev" "ev \<noteq> MessageStop"
      by auto
    then show ?thesis by (rule process_carried)
  qed
  then obtain st1 out1 where p: "process_line E model st l = Inr (Next st1 out1)"
    by blast
  from Cons.IH [of st1] Cons.prems obtain st2 out2 where
    "run_lines E model st1 ls = Some (st2, out2)"
    by auto
  with p show ?case by simp
qed

lemma message_stop_carried:
  "carries E l MessageStop \<Longrightarrow> is_message_stop E l"
  by (auto simp: carries_def is_message_stop_def event_of_def startswith_def subscript_def)

subsection \<open>The end of the stream\<close>

lemma signal_of_Done: "signal_of Done = [Sentinel]"
  by (simp add: signal_of_def)

text \<open>
  C1. Let the translator get through the lines \<open>pre\<close> of a 200 response without an
  exception and without leaving the loop (as it does when they carry proper events,
  lemma \<open>run_lines_carried\<close>), and let the next line be a \<^verbatim>\<open>message_stop\<close> event. Then the output is what \<open>pre\<close> produced, followed by one
  finish chunk and the sentinel, and nothing after the \<^verbatim>\<open>message_stop\<close> line is read.
  The finish chunk has an empty delta, and its \<^verbatim>\<open>finish_reason\<close> is
  \<^verbatim>\<open>tool_calls\<close> if some line of \<open>pre\<close> started a \<^verbatim>\<open>tool_use\<close> content block and
  \<^verbatim>\<open>stop\<close> if none did.
\<close>

theorem finish_reason_on_message_stop:
  assumes "run_lines E model init_state pre = Some (st, out)" and "is_message_stop E l"
  shows "\<exists>finish.
           stream_with_ui E model prev (Connected 200 rid body (map Line pre @ Line l # rest)) =
             out @ [Chunk finish, Done] \<and>
           chunk_choice finish ''delta'' = Some (JObj []) \<and>
           chunk_choice finish ''finish_reason'' =
             Some (JStr (if (\<exists>x\<in>set pre. starts_tool_use E x) then ''tool_calls''
                         else ''stop''))"
proof -
  have h: "has_tool_calls st = (\<exists>x\<in>set pre. starts_tool_use E x)"
    using run_lines_has_tool_calls [OF assms(1)] by (simp add: init_state_def)
  define finish where
    "finish = create_openai_tool_call_chunk E (clock_reads st) model JNull JNull
                (JStr (if has_tool_calls st then ''tool_calls'' else ''stop''))"
  have 1: "stream_with_ui E model prev (Connected 200 rid body (map Line pre @ Line l # rest)) =
             out @ [Chunk finish, Done]"
    unfolding finish_def by (rule stream_to_message_stop [OF assms])
  have 2: "chunk_choice finish ''delta'' = Some (JObj [])"
    unfolding finish_def by (simp add: chunk_choice_delta)
  have 3: "chunk_choice finish ''finish_reason'' =
             Some (JStr (if (\<exists>x\<in>set pre. starts_tool_use E x) then ''tool_calls''
                         else ''stop''))"
    unfolding finish_def h [symmetric] by (simp only: chunk_choice_finish)
  from 1 2 3 show ?thesis by blast
qed

theorem finish_reason_on_message_stop_witness:
  "(\<exists>out finish.
      stream_with_ui example_env (JStr ''claude-sonnet-4-0'') None
        (Connected 200 None []
          [Line line_text, Line line_tool_start, Line line_args1, Line line_args2,
           Line line_block_stop, Line line_message_stop]) = out @ [Chunk finish, Done] \<and>
      chunk_choice finish ''finish_reason'' = Some (JStr ''tool_calls'')) \<and>
   (\<exists>out finish.
      stream_with_ui example_env (JStr ''claude-sonnet-4-0'') None
        (Connected 200 None [] [Line line_text, Line line_message_stop]) =
        out @ [Chunk finish, Done] \<and>
      chunk_choice finish ''finish_reason'' = Some (JStr ''stop''))"
proof
  obtain st out where
    r: "run_lines example_env (JStr ''claude-sonnet-4-0'') init_state
          [line_text, line_tool_start, line_args1, line_args2, line_block_stop] = Some (st, out)"
    using ex_run_tool by blast
  from finish_reason_on_message_stop [OF r ex_message_stop, of None None "[]" "[]"]
  show "\<exists>out finish.
      stream_with_ui example_env (JStr ''claude-sonnet-4-0'') None
        (Connected 200 None []
          [Line line_text, Line line_tool_start, Line line_args1, Line line_args2,
           Line line_block_stop, Line line_message_stop]) = out @ [Chunk finish, Done] \<and>
      chunk_choice finish ''finish_reason'' = Some (JStr ''tool_calls'')"
    by (auto simp: ex_starts)
next
  obtain st out where
    r: "run_lines example_env (JStr ''claude-sonnet-4-0'') init_state [line_text] =
          Some (st, out)"
    using ex_run_text by blast
  from finish_reason_on_message_stop [OF r ex_message_stop, of None None "[]" "[]"]
  show "\<exists>out finish.
      stream_with_ui example_env (JStr ''claude-sonnet-4-0'') None
        (Connected 200 None [] [Line line_text, Line line_message_stop]) =
        out @ [Chunk finish, Done] \<and>
      chunk_choice finish ''finish_reason'' = Some (JStr ''stop'')"
    by (auto simp: ex_starts)
qed

text \<open>
  C2. Under the same conditions (status 200, the lines before the \<^verbatim>\<open>message_stop\<close>
  line gone through without an exception) the sentinel \<^verbatim>\<open>data: [DONE]\<close> is the last
  item of the output and occurs nowhere else in it.
\<close>

theorem done_sentinel_once_and_last:
  assumes "run_lines E model init_state pre = Some (st, out)" and "is_message_stop E l"
  shows "\<exists>ys.
           stream_with_ui E model prev (Connected 200 rid body (map Line pre @ Line l # rest)) =
             ys @ [Done] \<and>
           Done \<notin> set ys"
proof -
  let ?finish = "create_openai_tool_call_chunk E (clock_reads st) model JNull JNull
                   (JStr (if has_tool_calls st then ''tool_calls'' else ''stop''))"
  have "stream_with_ui E model prev (Connected 200 rid body (map Line pre @ Line l # rest)) =
          (out @ [Chunk ?finish]) @ [Done]"
    using stream_to_message_stop [OF assms] by simp
  moreover have "Done \<notin> set (out @ [Chunk ?finish])"
    using run_lines_no_done [OF assms(1)] by simp
  ultimately show ?thesis by blast
qed

theorem done_sentinel_once_and_last_witness:
  "\<exists>ys.
     stream_with_ui example_env (JStr ''claude-sonnet-4-0'') None
       (Connected 200 None []
         [Line line_text, Line line_tool_start, Line line_args1, Line line_args2,
          Line line_block_stop, Line line_message_stop, Line line_text]) = ys @ [Done] \<and>
     Done \<notin> set ys"
proof -
  obtain st out where
    r: "run_lines example_env (JStr ''claude-sonnet-4-0'') init_state
          [line_text, line_tool_start, line_args1, line_args2, line_block_stop] = Some (st, out)"
    using ex_run_tool by blast
  from done_sentinel_once_and_last [OF r ex_message_stop, of None None "[]" "[Line line_text]"]
  show ?thesis by simp
qed

text \<open>
  C3. Let a 200 response hold exactly one line \<open>s\<close> that starts a \<^verbatim>\<open>tool_use\<close> content
  block, with lines \<open>pre\<close> before it and \<open>post\<close> after it that start none, then a
  \<^verbatim>\<open>message_stop\<close> line, and let the translator get through \<open>pre\<close>, \<open>s\<close> and \<open>post\<close>
  without an exception. Leaving the chunks of text and reasoning aside, the output is:
  one chunk whose \<^verbatim>\<open>tool_calls\<close> is the list of one entry
  \<^verbatim>\<open>{"index": 0, "id": id, "type": "function", "function": {"name": name, "arguments": ""}}\<close>
  with the block's id and name (the id being \<^verbatim>\<open>call_0\<close> and the name empty when the
  block has none); then, for each non-empty \<^verbatim>\<open>partial_json\<close> \<open>p\<close> of the
  \<^verbatim>\<open>input_json_delta\<close> lines up to the block's \<^verbatim>\<open>content_block_stop\<close>, one chunk whose
  \<^verbatim>\<open>tool_calls\<close> is \<^verbatim>\<open>[{"index": 0, "function": {"arguments": p}}]\<close>, the fragment as
  it came; then the finish chunk with \<^verbatim>\<open>finish_reason\<close> \<^verbatim>\<open>tool_calls\<close>; then the
  sentinel.
\<close>

theorem one_tool_use_block:
  assumes pre: "\<forall>x\<in>set pre. \<not> starts_tool_use E x"
    and post: "\<forall>x\<in>set post. \<not> starts_tool_use E x"
    and s: "event_of E s = Some d" "tool_use_block d = Some cb"
    and ident: "dict_get cb ''id'' (JStr ''call_0'') = Inr ident"
    and name: "dict_get cb ''name'' (JStr []) = Inr name"
    and run: "run_lines E model init_state (pre @ s # post) = Some (st, out)"
    and stop: "is_message_stop E l"
  shows "signals (stream_with_ui E model prev
            (Connected 200 rid body (map Line (pre @ s # post) @ Line l # rest))) =
         ToolCalls (JArr [JObj [(''index'', JInt 0), (''id'', ident), (''type'', JStr ''function''),
                                (''function'', JObj [(''name'', name),
                                                     (''arguments'', JStr [])])]]) #
         map (\<lambda>p. ToolCalls (JArr [JObj [(''index'', JInt 0),
                                           (''function'', JObj [(''arguments'', p)])]]))
           (fragments E post) @
         [FinishReason (JStr ''tool_calls''), Sentinel]"
proof -
  from run_lines_append [OF run] obtain st1 out1 out2 where
    r1: "run_lines E model init_state pre = Some (st1, out1)" and
    r2: "run_lines E model st1 (s # post) = Some (st, out2)" and
    o: "out = out1 @ out2"
    by blast
  from r2 obtain st2 outs out3 where
    p: "process_line E model st1 s = Inr (Next st2 outs)" and
    r3: "run_lines E model st2 post = Some (st, out3)" and
    o2: "out2 = outs @ out3"
    by (rule run_lines_Cons)
  have idle: "unchanged init_state st1 \<and> signals out1 = []"
    using run_lines_idle [OF _ pre r1] by (simp add: init_state_def)
  then have i0: "tool_call_index st1 = 0"
    by (simp add: unchanged_def init_state_def)
  from tool_use_start_line [OF s p] ident name obtain tu where
    ss: "signals outs = [ToolCalls (initial_tool_calls 0 ident name)]" and
    h2: "has_tool_calls st2" and
    tu: "current_tool_use st2 = Some tu" "tu_index tu = 0"
    unfolding i0 show_nat_0 by auto
  from run_lines_active [OF tu(1) post r3] tu(2) h2 have
    sp: "signals out3 = map (\<lambda>p. ToolCalls (argument_tool_calls 0 p)) (fragments E post)" and
    h: "has_tool_calls st"
    by simp_all
  have "stream_with_ui E model prev
            (Connected 200 rid body (map Line (pre @ s # post) @ Line l # rest)) =
        out @ [Chunk (create_openai_tool_call_chunk E (clock_reads st) model JNull JNull
                 (JStr ''tool_calls'')), Done]"
    using stream_to_message_stop [OF run stop] h by simp
  then have "signals (stream_with_ui E model prev
            (Connected 200 rid body (map Line (pre @ s # post) @ Line l # rest))) =
         ToolCalls (initial_tool_calls 0 ident name) #
         map (\<lambda>p. ToolCalls (argument_tool_calls 0 p)) (fragments E post) @
         [FinishReason (JStr ''tool_calls''), Sentinel]"
    using idle ss sp o o2
    by (simp add: signals_simps signal_of_chunk signal_of_Done)
  then show ?thesis
    by (simp add: initial_tool_calls_def argument_tool_calls_def)
qed

theorem one_tool_use_block_witness:
  "signals (stream_with_ui example_env (JStr ''claude-sonnet-4-0'') None
     (Connected 200 None []
        [Line line_text, Line line_tool_start, Line line_args1, Line line_args2,
         Line line_block_stop, Line line_message_stop])) =
   [ToolCalls (JArr [JObj [(''index'', JInt 0), (''id'', JStr ''toolu_01''),
                           (''type'', JStr ''function''),
                           (''function'', JObj [(''name'', JStr ''get_weather''),
                                                (''arguments'', JStr [])])]]),
    ToolCalls (JArr [JObj [(''index'', JInt 0),
                           (''function'', JObj [(''arguments'', JStr ''[1, '')])]]),
    ToolCalls (JArr [JObj [(''index'', JInt 0),
                           (''function'', JObj [(''arguments'', JStr ''2]'')])]]),
    FinishReason (JStr ''tool_calls''), Sentinel]"
proof -
  obtain st out where
    r0: "run_lines example_env (JStr ''claude-sonnet-4-0'') init_state
          [line_text, line_tool_start, line_args1, line_args2, line_block_stop] = Some (st, out)"
    using ex_run_tool by blast
  then have
    r: "run_lines example_env (JStr ''claude-sonnet-4-0'') init_state
          ([line_text] @ line_tool_start # [line_args1, line_args2, line_block_stop]) =
        Some (st, out)"
    by simp
  have pre: "\<forall>x\<in>set [line_text]. \<not> starts_tool_use example_env x"
    and post: "\<forall>x\<in>set [line_args1, line_args2, line_block_stop].
                 \<not> starts_tool_use example_env x"
    by (simp_all add: ex_starts)
  have f: "fragments example_env [line_args1, line_args2, line_block_stop] =
             [JStr ''[1, '', JStr ''2]'']"
    by (simp add: fragments_Cons ex_block_stop ex_fragment)
  from one_tool_use_block [OF pre post ex_event_tool_start ex_tool_use_block(1) _ _ r
      ex_message_stop, of "JStr ''toolu_01''" "JStr ''get_weather''" None None "[]" "[]"]
  show ?thesis
    by (simp add: dict_get_def f)
qed

subsection \<open>Lines that are not JSON\<close>

lemma skipped_line_anywhere:
  assumes "\<And>st. process_line E model st l = Inr (Next st [])"
  shows "stream_lines E model rid st (map Line pre @ Line l # rest) =
         stream_lines E model rid st (map Line pre @ rest)"
proof (induction pre arbitrary: st)
  case Nil
  show ?case using assms by simp
next
  case (Cons x xs)
  show ?case
  proof (cases "process_line E model st x")
    case (Inl e)
    then show ?thesis by simp
  next
    case (Inr s)
    then show ?thesis using Cons.IH by (cases s) simp_all
  qed
qed

lemma ex_truncated:
  "startswith line_truncated ''data: ''"
  "json_loads example_env (drop 6 line_truncated) = Inl JSONDecodeError"
  by (simp_all add: startswith_def example_env_def example_loads_def line_truncated_def
      line_text_def line_tool_start_def line_args1_def line_args2_def line_block_stop_def
      line_citation_def line_message_stop_def line_undecodable_def)

text \<open>
  A line whose payload \<^verbatim>\<open>json.loads\<close> rejects with JSONDecodeError yields nothing and
  leaves the state as it was, wherever it stands in a 200 response: the output of the
  whole stream is the output of the stream without that line. Nothing of the line
  reaches the output, and the lines after it are read as usual.
\<close>

lemma json_decode_error_line_skipped:
  assumes "startswith l ''data: ''" and "json_loads E (drop 6 l) = Inl JSONDecodeError"
  shows "process_line E model st l = Inr (Next st []) \<and>
         stream_with_ui E model prev (Connected 200 rid body (map Line pre @ Line l # rest)) =
         stream_with_ui E model prev (Connected 200 rid body (map Line pre @ rest))"
proof -
  have "l \<noteq> []"
    using assms(1) by (auto simp: startswith_def)
  then have p: "process_line E model s l = Inr (Next s [])" for s
    using assms by (simp add: process_line_def)
  then show ?thesis
    by (simp add: stream_with_ui_def skipped_line_anywhere)
qed

lemma json_decode_error_line_example:
  "startswith line_truncated ''data: '' \<and>
   json_loads example_env (drop 6 line_truncated) = Inl JSONDecodeError \<and>
   process_line example_env (JStr ''claude-sonnet-4-0'') init_state line_truncated =
     Inr (Next init_state []) \<and>
   stream_with_ui example_env (JStr ''claude-sonnet-4-0'') None
     (Connected 200 None [] [Line line_text, Line line_truncated, Line line_message_stop]) =
   stream_with_ui example_env (JStr ''claude-sonnet-4-0'') None
     (Connected 200 None [] [Line line_text, Line line_message_stop])"
  using json_decode_error_line_skipped [OF ex_truncated, of "JStr ''claude-sonnet-4-0''" init_state
      None None "[]" "[line_text]" "[Line line_message_stop]"]
  by (simp add: ex_truncated)

text \<open>
  C8. The handler of lines 657 to 661 is there to pass over a line that does not
  parse, but it names JSONDecodeError only. A payload whose bytes are not UTF-8 text
  is not valid JSON either, and \<^verbatim>\<open>json.loads\<close> raises UnicodeDecodeError for it (a
  ValueError, which the handler of the other \<^verbatim>\<open>json.loads\<close> call, at line 708, does
  catch). Here it is not caught: the handler around the loop ends the stream with a
  \<^verbatim>\<open>Stream error\<close> line that the user sees, and the lines after it are never read.
  With the line taken out the same stream ends with its finish chunk and the
  sentinel.
\<close>

theorem undecodable_line_aborts_stream:
  "startswith line_undecodable ''data: '' \<and>
   json_loads example_env (drop 6 line_undecodable) = Inl UnicodeDecodeError \<and>
   stream_with_ui example_env (JStr ''claude-sonnet-4-0'') None
     (Connected 200 None [] [Line line_undecodable, Line line_text, Line line_message_stop]) =
   [ErrorLine (StreamError UnicodeDecodeError) None] \<and>
   stream_with_ui example_env (JStr ''claude-sonnet-4-0'') None
     (Connected 200 None [] [Line line_undecodable, Line line_text, Line line_message_stop]) \<noteq>
   stream_with_ui example_env (JStr ''claude-sonnet-4-0'') None
     (Connected 200 None [] [Line line_text, Line line_message_stop])"
proof -
  have a: "startswith line_undecodable ''data: ''"
    by (simp add: startswith_def line_undecodable_def)
  have b: "json_loads example_env (drop 6 line_undecodable) = Inl UnicodeDecodeError"
    by (simp add: example_env_def example_loads_def line_undecodable_def
      line_text_def line_tool_start_def line_args1_def line_args2_def line_block_stop_def
      line_citation_def line_message_stop_def)
  have "line_undecodable \<noteq> []"
    by (simp add: line_undecodable_def)
  then have "process_line example_env (JStr ''claude-sonnet-4-0'') init_state line_undecodable =
          Inl UnicodeDecodeError"
    using a b by (simp add: process_line_def)
  then have c: "stream_with_ui example_env (JStr ''claude-sonnet-4-0'') None
     (Connected 200 None [] [Line line_undecodable, Line line_text, Line line_message_stop]) =
     [ErrorLine (StreamError UnicodeDecodeError) None]"
    by (simp add: stream_with_ui_def error_line_def request_id_note_def)
  obtain st out where
    r: "run_lines example_env (JStr ''claude-sonnet-4-0'') init_state [line_text] =
          Some (st, out)"
    using ex_run_text by blast
  from stream_to_message_stop [OF r ex_message_stop, of None None "[]" "[]"]
  have "last (stream_with_ui example_env (JStr ''claude-sonnet-4-0'') None
     (Connected 200 None [] [Line line_text, Line line_message_stop])) = Done"
    by simp
  then have d: "stream_with_ui example_env (JStr ''claude-sonnet-4-0'') None
     (Connected 200 None [] [Line line_undecodable, Line line_text, Line line_message_stop]) \<noteq>
   stream_with_ui example_env (JStr ''claude-sonnet-4-0'') None
     (Connected 200 None [] [Line line_text, Line line_message_stop])"
    unfolding c by (metis emitted.distinct(5) last.simps)
  from a b c d show ?thesis by blast
qed

section \<open>Properties of the request builder\<close>

lemma resolve_thinking_model:
  "resolve_model ''api/claude-3-5-sonnet-latest-thinking'' = (''claude-3-5-sonnet-latest'', True)"
  by (simp add: resolve_model_def startswith_def py_replace_def replace_nonempty.simps)

lemma limit_sonnet_3_5: "max_tokens_limit ''claude-3-5-sonnet-latest'' = 8192"
  by (simp add: max_tokens_limit_def MODEL_MAX_TOKENS_def)

subsection \<open>The entries of an accepted request\<close>

lemma map_of_filter_hit:
  "P (k, x) \<Longrightarrow> map_of (filter P ((k, x) # xs) @ ys) k = Some x"
  by simp

lemma map_of_filter_skip:
  "k \<noteq> k' \<Longrightarrow> map_of (filter P ((k', x) # xs) @ ys) k = map_of (filter P xs @ ys) k"
  by simp

lemma map_of_miss:
  "k \<notin> fst ` set xs \<Longrightarrow> map_of (xs @ ys) k = map_of ys k"
  by (induction xs) auto

lemma map_of_filter_miss:
  "k \<notin> fst ` set xs \<Longrightarrow> map_of (filter P xs @ ys) k = map_of ys k"
  by (rule map_of_miss) auto

lemma py_min_value:
  assumes "py_min a b = Inr x"
  shows "x \<noteq> JNull"
  using assms by (cases a) (auto simp: py_min_def split: if_splits)

lemma sampling_keys:
  assumes "sampling E kvs = Inr sampled"
  shows "\<exists>t k p. sampled = [(''temperature'', t), (''top_k'', k), (''top_p'', p)]"
  using assms by (auto simp: sampling_def split: sum.splits)

lemma tool_choice_keys:
  assumes "tool_choice_entry kvs = Inr choice"
  shows "fst ` set choice \<subseteq> {''tool_choice''}"
  using assms
  by (auto simp: tool_choice_entry_def Let_def split: if_splits json.splits sum.splits)

lemma tool_entries_keys:
  assumes "tool_entries kvs = Inr tools"
  shows "fst ` set tools \<subseteq> {''tools'', ''tool_choice''}"
proof (cases "map_of kvs ''tools''")
  case None
  then show ?thesis using assms by (simp add: tool_entries_def)
next
  case (Some ts)
  from assms Some obtain converted choice where
    c: "tool_choice_entry kvs = Inr choice" and t: "tools = (''tools'', converted) # choice"
    by (auto simp: tool_entries_def split: sum.splits)
  from tool_choice_keys [OF c] t show ?thesis
    by auto
qed

lemma response_format_keys:
  assumes "response_format_entry kvs = Inr rf"
  shows "fst ` set rf \<subseteq> {''response_format''}"
  using assms by (auto simp: response_format_entry_def split: option.splits sum.splits)

text \<open>
  What an accepted request says about the steps of \<open>build\<close>: each of them returned,
  the first three entries of the payload are the model, the messages and the token
  limit, and the thinking entry is there exactly in thinking mode.
\<close>

lemma build_accepted:
  assumes "build E v kvs system_message messages model = Inr req"
    and "resolve_model model = (model_name, is_thinking_mode)"
  shows "\<exists>max_tokens.
           py_min (lookup kvs ''max_tokens'' (JInt (max_tokens_limit model_name)))
             (max_tokens_limit model_name) = Inr max_tokens \<and>
           map_of (payload req) ''model'' = Some (JStr model_name) \<and>
           map_of (payload req) ''max_tokens'' = Some max_tokens \<and>
           map_of (payload req) ''thinking'' =
             (if is_thinking_mode then
                Some (JObj [(''type'', JStr ''enabled''),
                            (''budget_tokens'', JInt (THINKING_BUDGET_TOKENS v))])
              else None)"
proof -
  define limit where "limit = max_tokens_limit model_name"
  from assms obtain processed left where
    p: "process_messages E (lookup kvs ''messages'' (JArr [])) messages = Inr (processed, left)"
    by (cases "process_messages E (lookup kvs ''messages'' (JArr [])) messages")
      (auto simp: build_def)
  from assms p obtain max_tokens where
    mt: "py_min (lookup kvs ''max_tokens'' (JInt limit)) limit = Inr max_tokens"
    by (cases "py_min (lookup kvs ''max_tokens'' (JInt limit)) limit")
      (auto simp: build_def limit_def)
  from assms p mt obtain sampled where s: "sampling E kvs = Inr sampled"
    by (cases "sampling E kvs") (auto simp: build_def limit_def)
  from assms p mt s obtain tools where t: "tool_entries kvs = Inr tools"
    by (cases "tool_entries kvs") (auto simp: build_def limit_def)
  from assms p mt s t obtain rf where r: "response_format_entry kvs = Inr rf"
    by (cases "response_format_entry kvs") (auto simp: build_def limit_def)
  from assms p mt s t r obtain fl where f: "beta_scan left = Inr fl"
    by (cases "beta_scan left") (auto simp: build_def limit_def)
  define entries where
    "entries = payload_entries E v kvs system_message model_name is_thinking_mode processed
                 max_tokens sampled tools rf"
  have b: "build E v kvs system_message messages model =
      (case map_of entries ''stream'' of
         None \<Rightarrow> Inl (KeyError ''stream'')
       | Some stream \<Rightarrow>
           Inr \<lparr>payload = entries,
                beta_headers =
                  beta_headers_of model_name fl
                    (is_thinking_mode \<and>
                     truthy (lookup kvs ''interleaved_thinking'' (JBool False))),
                streaming = truthy stream\<rparr>)"
    unfolding entries_def build_def Let_def
    using assms(2) p mt s t r f
    by (simp add: limit_def)
  have pl: "payload req = entries"
    using assms(1) unfolding b
    by (cases "map_of entries ''stream''") auto
  define sys where
    "sys = (if truthy system_message
            then [(''system'', JStr (py_str E system_message))] else [])"
  define thinking where
    "thinking = (if is_thinking_mode then
                   [(''thinking'', JObj [(''type'', JStr ''enabled''),
                      (''budget_tokens'', JInt (THINKING_BUDGET_TOKENS v))])]
                 else [])"
  have ed: "entries = filter (\<lambda>kv. snd kv \<noteq> JNull)
                 ([(''model'', JStr model_name), (''messages'', processed),
                   (''max_tokens'', max_tokens)] @ sampled @
                  [(''stream'', lookup kvs ''stream'' (JBool True)),
                   (''metadata'', lookup kvs ''metadata'' (JObj []))]) @
               (sys @ tools @ rf @ thinking)"
    by (simp add: entries_def payload_entries_def sys_def thinking_def split del: if_split)
  from sampling_keys [OF s] obtain st sk sp where
    sd: "sampled = [(''temperature'', st), (''top_k'', sk), (''top_p'', sp)]"
    by blast
  have nn: "max_tokens \<noteq> JNull"
    using py_min_value [OF mt] .
  have 1: "map_of entries ''model'' = Some (JStr model_name)"
    unfolding ed by simp
  have 2: "map_of entries ''max_tokens'' = Some max_tokens"
    unfolding ed using nn by simp
  have k1: "''thinking'' \<notin> fst ` set sys"
    by (auto simp: sys_def)
  have k2: "''thinking'' \<notin> fst ` set tools"
    using tool_entries_keys [OF t] by auto
  have k3: "''thinking'' \<notin> fst ` set rf"
    using response_format_keys [OF r] by auto
  have "map_of entries ''thinking'' = map_of (sys @ tools @ rf @ thinking) ''thinking''"
    unfolding ed sd by (rule map_of_filter_miss) simp
  also have "\<dots> = map_of thinking ''thinking''"
    by (simp only: map_of_miss [OF k1] map_of_miss [OF k2] map_of_miss [OF k3])
  finally have 3: "map_of entries ''thinking'' =
      (if is_thinking_mode then
         Some (JObj [(''type'', JStr ''enabled''),
                     (''budget_tokens'', JInt (THINKING_BUDGET_TOKENS v))])
       else None)"
    by (simp add: thinking_def)
  from mt 1 2 3 show ?thesis
    unfolding pl limit_def by blast
qed

lemma pipe_accepted:
  assumes "pipe E v body = Inr req"
  shows "\<exists>kvs model system_message messages.
           body = JObj kvs \<and> map_of kvs ''model'' = Some (JStr model) \<and>
           build E v kvs system_message messages model = Inr req"
proof -
  from assms have key: "ANTHROPIC_API_KEY v \<noteq> []"
    by (auto simp: pipe_def split: if_splits)
  from assms key obtain ms where ms: "subscript body ''messages'' = Inr ms"
    by (cases "subscript body ''messages''") (auto simp: pipe_def)
  from assms key ms obtain sm messages where
    pop: "pop_system_message E ms = Inr (sm, messages)"
    by (cases "pop_system_message E ms") (auto simp: pipe_def)
  from assms key ms pop have t: "pipe_try E v body sm messages = Inr req"
    by (cases "pipe_try E v body sm messages") (auto simp: pipe_def pipe_prepare_def)
  then obtain m where m: "subscript body ''model'' = Inr m"
    by (cases "subscript body ''model''")
      (auto simp: pipe_try_def split: sum.splits)
  then obtain kvs where b: "body = JObj kvs" and mk: "map_of kvs ''model'' = Some m"
    by (cases body) (auto simp: subscript_def split: option.splits)
  from t m b obtain model where mo: "m = JStr model"
    by (cases m) (auto simp: pipe_try_def split: sum.splits)
  from t m b mo have "build E v kvs sm messages model = Inr req"
    by (auto simp: pipe_try_def split: sum.splits)
  with b mk mo show ?thesis by blast
qed

lemma build_returns:
  assumes "resolve_model model = (model_name, is_thinking_mode)"
    and "process_messages E (lookup kvs ''messages'' (JArr [])) messages = Inr (processed, left)"
    and "py_min (lookup kvs ''max_tokens'' (JInt (max_tokens_limit model_name)))
           (max_tokens_limit model_name) = Inr max_tokens"
    and "sampling E kvs = Inr sampled"
    and "tool_entries kvs = Inr tools"
    and "response_format_entry kvs = Inr rf"
    and "beta_scan left = Inr fl"
    and "lookup kvs ''stream'' (JBool True) \<noteq> JNull"
  shows "\<exists>req. build E v kvs system_message messages model = Inr req"
proof -
  define entries where
    "entries = payload_entries E v kvs system_message model_name is_thinking_mode processed
                 max_tokens sampled tools rf"
  have b: "build E v kvs system_message messages model =
      (case map_of entries ''stream'' of
         None \<Rightarrow> Inl (KeyError ''stream'')
       | Some stream \<Rightarrow>
           Inr \<lparr>payload = entries,
                beta_headers =
                  beta_headers_of model_name fl
                    (is_thinking_mode \<and>
                     truthy (lookup kvs ''interleaved_thinking'' (JBool False))),
                streaming = truthy stream\<rparr>)"
    unfolding entries_def build_def Let_def
    using assms(1-7)
    by simp
  from sampling_keys [OF assms(4)] obtain st sk sp where
    sd: "sampled = [(''temperature'', st), (''top_k'', sk), (''top_p'', sp)]"
    by blast
  have "map_of entries ''stream'' = Some (lookup kvs ''stream'' (JBool True))"
    unfolding entries_def payload_entries_def sd using assms(8) by simp
  then show ?thesis
    unfolding b by simp
qed

lemma ex_pipe_thinking:
  "pipe example_env test_valves (JObj thinking_body) =
     Inr \<lparr>payload =
            [(''model'', JStr ''claude-3-5-sonnet-latest''),
             (''messages'',
              JArr [JObj [(''role'', JStr ''user''),
                          (''content'', JArr [JObj [(''type'', JStr ''text''),
                                                    (''text'', JStr ''Hi'')]])]]),
             (''max_tokens'', JInt 8192),
             (''stream'', JBool True),
             (''metadata'', JObj []),
             (''thinking'', JObj [(''type'', JStr ''enabled''),
                                  (''budget_tokens'', JInt 16000)])],
          beta_headers = [], streaming = True\<rparr>"
proof -
  have pop: "pop_system_message example_env (JArr [hi_message]) = Inr (JNull, [hi_message])"
    by (simp add: example_env_def example_pop_def is_system_def hi_message_def dict_get_def)
  have val: "validate_total_image_size [hi_message] = Inr ()"
    by (simp add: validate_total_image_size_def scan_message_def hi_message_def dict_get_def
        TOTAL_MAX_IMAGE_SIZE_def MAX_IMAGES_PER_REQUEST_def)
  have pro: "process_messages example_env (JArr [hi_message]) [hi_message] =
      Inr (JArr [JObj [(''role'', JStr ''user''),
                       (''content'', JArr [JObj [(''type'', JStr ''text''),
                                                 (''text'', JStr ''Hi'')]])]],
           JArr [hi_message])"
    by (simp add: example_env_def example_process_def plain_user_def hi_message_def)
  have sam: "sampling example_env thinking_body =
      Inr [(''temperature'', JNull), (''top_k'', JNull), (''top_p'', JNull)]"
    by (simp add: sampling_def lookup_def thinking_body_def convert_opt_def)
  have too: "tool_entries thinking_body = Inr []"
    by (simp add: tool_entries_def thinking_body_def)
  have rf: "response_format_entry thinking_body = Inr []"
    by (simp add: response_format_entry_def thinking_body_def)
  have bs: "beta_scan (JArr [hi_message]) =
      Inr \<lparr>has_pdf = False, has_cache = False, has_1h_cache = False, has_files = False\<rparr>"
    by (simp add: beta_scan_def py_iter_def flag_message_def hi_message_def subscript_def)
  have lk: "lookup thinking_body ''messages'' (JArr []) = JArr [hi_message]"
      "lookup thinking_body ''max_tokens'' (JInt 8192) = JInt 20000"
      "lookup thinking_body ''stream'' (JBool True) = JBool True"
      "lookup thinking_body ''metadata'' (JObj []) = JObj []"
      "lookup thinking_body ''interleaved_thinking'' (JBool False) = JBool False"
    by (simp_all add: lookup_def thinking_body_def)
  have bu: "build example_env test_valves thinking_body JNull [hi_message]
        ''api/claude-3-5-sonnet-latest-thinking'' =
     Inr \<lparr>payload =
            [(''model'', JStr ''claude-3-5-sonnet-latest''),
             (''messages'',
              JArr [JObj [(''role'', JStr ''user''),
                          (''content'', JArr [JObj [(''type'', JStr ''text''),
                                                    (''text'', JStr ''Hi'')]])]]),
             (''max_tokens'', JInt 8192),
             (''stream'', JBool True),
             (''metadata'', JObj []),
             (''thinking'', JObj [(''type'', JStr ''enabled''),
                                  (''budget_tokens'', JInt 16000)])],
          beta_headers = [], streaming = True\<rparr>"
    by (simp add: build_def resolve_thinking_model limit_sonnet_3_5 lk pro py_min_def sam too rf
        bs payload_entries_def test_valves_def beta_headers_of_def)
  have "pipe_try example_env test_valves (JObj thinking_body) JNull [hi_message] =
      build example_env test_valves thinking_body JNull [hi_message]
        ''api/claude-3-5-sonnet-latest-thinking''"
    by (simp add: pipe_try_def val subscript_def thinking_body_def)
  then show ?thesis
    using bu pop
    by (simp add: pipe_def pipe_prepare_def test_valves_def subscript_def thinking_body_def)
qed

text \<open>
  The same body with the temperature \<^verbatim>\<open>"hot"\<close> is refused: \<^verbatim>\<open>float("hot")\<close> raises
  ValueError and \<^verbatim>\<open>pipe\<close> returns the error dict.
\<close>

lemma ex_pipe_hot:
  "pipe example_env test_valves (JObj hot_body) = Inl (Raised (FloatLiteralError ''hot''))"
proof -
  have pop: "pop_system_message example_env (JArr [hi_message]) = Inr (JNull, [hi_message])"
    by (simp add: example_env_def example_pop_def is_system_def hi_message_def dict_get_def)
  have val: "validate_total_image_size [hi_message] = Inr ()"
    by (simp add: validate_total_image_size_def scan_message_def hi_message_def dict_get_def
        TOTAL_MAX_IMAGE_SIZE_def MAX_IMAGES_PER_REQUEST_def)
  have pro: "process_messages example_env (JArr [hi_message]) [hi_message] =
      Inr (JArr [JObj [(''role'', JStr ''user''),
                       (''content'', JArr [JObj [(''type'', JStr ''text''),
                                                 (''text'', JStr ''Hi'')]])]],
           JArr [hi_message])"
    by (simp add: example_env_def example_process_def plain_user_def hi_message_def)
  have sam: "sampling example_env hot_body = Inl (FloatLiteralError ''hot'')"
    by (simp add: sampling_def lookup_def hot_body_def thinking_body_def convert_opt_def
        example_env_def example_float_def)
  have lk: "lookup hot_body ''messages'' (JArr []) = JArr [hi_message]"
      "lookup hot_body ''max_tokens'' (JInt 8192) = JInt 20000"
    by (simp_all add: lookup_def hot_body_def thinking_body_def)
  have bu: "build example_env test_valves hot_body JNull [hi_message]
        ''api/claude-3-5-sonnet-latest-thinking'' = Inl (FloatLiteralError ''hot'')"
    by (simp add: build_def resolve_thinking_model limit_sonnet_3_5 lk pro py_min_def sam)
  have "pipe_try example_env test_valves (JObj hot_body) JNull [hi_message] =
      build example_env test_valves hot_body JNull [hi_message]
        ''api/claude-3-5-sonnet-latest-thinking''"
    by (simp add: pipe_try_def val subscript_def hot_body_def thinking_body_def)
  then show ?thesis
    using bu pop
    by (simp add: pipe_def pipe_prepare_def test_valves_def subscript_def hot_body_def
        thinking_body_def)
qed

text \<open>
  C5. Whenever \<^verbatim>\<open>pipe\<close> accepts a body whose model is
  \<^verbatim>\<open>api/claude-3-5-sonnet-latest-thinking\<close>, that is, whenever it gets as far as sending
  the request, the payload it sends has the model \<^verbatim>\<open>claude-3-5-sonnet-latest\<close> and the
  thinking entry \<^verbatim>\<open>{"type": "enabled", "budget_tokens": THINKING_BUDGET_TOKENS}\<close> with
  the value of the valves. (A body that \<^verbatim>\<open>pipe\<close> refuses for another of its keys, such
  as a temperature that is no number, has no payload; lemma \<open>build_returns\<close> says
  when a payload is built.)
\<close>

theorem thinking_model_payload:
  assumes "pipe E v body = Inr req"
    and "subscript body ''model'' = Inr (JStr ''api/claude-3-5-sonnet-latest-thinking'')"
  shows "map_of (payload req) ''model'' = Some (JStr ''claude-3-5-sonnet-latest'') \<and>
         map_of (payload req) ''thinking'' =
           Some (JObj [(''type'', JStr ''enabled''),
                       (''budget_tokens'', JInt (THINKING_BUDGET_TOKENS v))])"
proof -
  from pipe_accepted [OF assms(1)] obtain kvs model system_message messages where
    b: "body = JObj kvs" and m: "map_of kvs ''model'' = Some (JStr model)" and
    bu: "build E v kvs system_message messages model = Inr req"
    by blast
  from assms(2) b m have "model = ''api/claude-3-5-sonnet-latest-thinking''"
    by (simp add: subscript_def)
  with build_accepted [OF bu, of "''claude-3-5-sonnet-latest''" True] show ?thesis
    by (auto simp: resolve_thinking_model)
qed

theorem thinking_model_payload_witness:
  "\<exists>req.
     pipe example_env test_valves (JObj thinking_body) = Inr req \<and>
     subscript (JObj thinking_body) ''model'' =
       Inr (JStr ''api/claude-3-5-sonnet-latest-thinking'') \<and>
     THINKING_BUDGET_TOKENS test_valves = 16000 \<and>
     map_of (payload req) ''model'' = Some (JStr ''claude-3-5-sonnet-latest'') \<and>
     map_of (payload req) ''thinking'' =
       Some (JObj [(''type'', JStr ''enabled''), (''budget_tokens'', JInt 16000)])"
proof -
  have m: "subscript (JObj thinking_body) ''model'' =
       Inr (JStr ''api/claude-3-5-sonnet-latest-thinking'')"
    by (simp add: subscript_def thinking_body_def)
  have v: "THINKING_BUDGET_TOKENS test_valves = 16000"
    by (simp add: test_valves_def)
  from thinking_model_payload [OF ex_pipe_thinking m] m v ex_pipe_thinking show ?thesis
    by simp
qed

subsection \<open>The token limit\<close>

lemma map_of_put:
  "map_of (put k x kvs) k' = (if k' = k then Some x else map_of kvs k')"
  by (induction kvs) auto

lemma lookup_put:
  "lookup (put k x kvs) k' d = (if k' = k then x else lookup kvs k' d)"
  by (simp add: lookup_def map_of_put)

lemma sampling_put:
  "sampling E (put ''max_tokens'' x kvs) = sampling E kvs"
  by (simp add: sampling_def lookup_put cong: sum.case_cong)

lemma tool_entries_put:
  "tool_entries (put ''max_tokens'' x kvs) = tool_entries kvs"
  by (simp add: tool_entries_def tool_choice_entry_def map_of_put lookup_put
      cong: sum.case_cong option.case_cong)

lemma response_format_put:
  "response_format_entry (put ''max_tokens'' x kvs) = response_format_entry kvs"
  by (simp add: response_format_entry_def map_of_put cong: option.case_cong)

lemma payload_entries_put:
  "payload_entries E v (put ''max_tokens'' x kvs) sm mn t processed mt sampled tools rf =
   payload_entries E v kvs sm mn t processed mt sampled tools rf"
  by (simp add: payload_entries_def lookup_put)

text \<open>
  A body with another \<^verbatim>\<open>max_tokens\<close> that \<^verbatim>\<open>min\<close> takes to the same value is handled
  in the same way: the same refusal, or the same payload and headers.
\<close>

lemma build_put:
  assumes "resolve_model model = (model_name, is_thinking_mode)"
    and "py_min x (max_tokens_limit model_name) =
         py_min (lookup kvs ''max_tokens'' (JInt (max_tokens_limit model_name)))
           (max_tokens_limit model_name)"
  shows "build E v (put ''max_tokens'' x kvs) system_message messages model =
         build E v kvs system_message messages model"
  unfolding build_def Let_def
  using assms
  by (simp add: lookup_put sampling_put tool_entries_put response_format_put
      payload_entries_put cong: sum.case_cong prod.case_cong option.case_cong)

lemma pipe_put:
  assumes "map_of kvs ''model'' = Some (JStr model)"
    and "resolve_model model = (model_name, is_thinking_mode)"
    and "py_min x (max_tokens_limit model_name) =
         py_min (lookup kvs ''max_tokens'' (JInt (max_tokens_limit model_name)))
           (max_tokens_limit model_name)"
  shows "pipe E v (JObj (put ''max_tokens'' x kvs)) = pipe E v (JObj kvs)"
proof -
  have t: "pipe_try E v (JObj (put ''max_tokens'' x kvs)) sm messages =
           pipe_try E v (JObj kvs) sm messages" for sm messages
    using assms(1) build_put [OF assms(2,3)]
    by (simp add: pipe_try_def subscript_def map_of_put cong: sum.case_cong)
  show ?thesis
    unfolding pipe_def pipe_prepare_def t
    by (simp add: subscript_def map_of_put)
qed


text \<open>
  C6. Let the resolved model name of a body have the ceiling \<open>c\<close>: its entry in
  \<open>MODEL_MAX_TOKENS\<close>, or 4096 when the table does not have the name. Whenever
  \<^verbatim>\<open>pipe\<close> accepts the body, the \<^verbatim>\<open>max_tokens\<close> of the payload it sends is \<open>c\<close> when the
  body asks for none, \<open>min n c\<close> when it asks for the integer \<open>n\<close>, and for a float or
  a bool what \<^verbatim>\<open>min(requested, c)\<close> is in Python (\<open>c\<close> when \<open>c\<close> is smaller, else the
  value requested). A body that asks for more than \<open>c\<close> is not refused for it:
  \<^verbatim>\<open>pipe\<close> does with it exactly what it does with the same body asking for \<open>c\<close>, the
  same payload and headers or the same refusal.
\<close>

theorem max_tokens_clamped:
  assumes "map_of kvs ''model'' = Some (JStr model)"
    and "resolve_model model = (model_name, is_thinking_mode)"
    and "c = (case map_of MODEL_MAX_TOKENS model_name of Some n \<Rightarrow> n | None \<Rightarrow> 4096)"
  shows "(pipe E v (JObj kvs) = Inr req \<longrightarrow>
            (map_of kvs ''max_tokens'' = None \<longrightarrow>
               map_of (payload req) ''max_tokens'' = Some (JInt c)) \<and>
            (\<forall>n. map_of kvs ''max_tokens'' = Some (JInt n) \<longrightarrow>
               map_of (payload req) ''max_tokens'' = Some (JInt (min n c))) \<and>
            (\<forall>r. map_of kvs ''max_tokens'' = Some (JFloat r) \<longrightarrow>
               map_of (payload req) ''max_tokens'' =
                 Some (if of_int c < r then JInt c else JFloat r)) \<and>
            (\<forall>b. map_of kvs ''max_tokens'' = Some (JBool b) \<longrightarrow>
               map_of (payload req) ''max_tokens'' =
                 Some (if c < (if b then 1 else 0) then JInt c else JBool b))) \<and>
         (\<forall>n. map_of kvs ''max_tokens'' = Some (JInt n) \<and> c < n \<longrightarrow>
            pipe E v (JObj kvs) = pipe E v (JObj (put ''max_tokens'' (JInt c) kvs))) \<and>
         (\<forall>r. map_of kvs ''max_tokens'' = Some (JFloat r) \<and> of_int c < r \<longrightarrow>
            pipe E v (JObj kvs) = pipe E v (JObj (put ''max_tokens'' (JInt c) kvs)))"
proof (intro conjI impI allI)
  have l: "max_tokens_limit model_name = c"
    using assms(3) by (simp add: max_tokens_limit_def)
  {
    assume acc: "pipe E v (JObj kvs) = Inr req"
    from pipe_accepted [OF acc] assms(1) obtain system_message messages where
      bu: "build E v kvs system_message messages model = Inr req"
      by auto
    from build_accepted [OF bu assms(2)] obtain max_tokens where
      mt: "py_min (lookup kvs ''max_tokens'' (JInt c)) c = Inr max_tokens" and
      pl: "map_of (payload req) ''max_tokens'' = Some max_tokens"
      unfolding l by blast
    show "map_of (payload req) ''max_tokens'' = Some (JInt c)"
      if "map_of kvs ''max_tokens'' = None"
      using that mt pl by (simp add: lookup_def py_min_def)
    show "map_of (payload req) ''max_tokens'' = Some (JInt (min n c))"
      if "map_of kvs ''max_tokens'' = Some (JInt n)" for n
      using that mt pl by (auto simp: lookup_def py_min_def min_def split: if_splits)
    show "map_of (payload req) ''max_tokens'' =
            Some (if of_int c < r then JInt c else JFloat r)"
      if "map_of kvs ''max_tokens'' = Some (JFloat r)" for r
      using that mt pl by (auto simp: lookup_def py_min_def split: if_splits)
    show "map_of (payload req) ''max_tokens'' =
            Some (if c < (if b then 1 else 0) then JInt c else JBool b)"
      if "map_of kvs ''max_tokens'' = Some (JBool b)" for b
      using that mt pl by (auto simp: lookup_def py_min_def split: if_splits)
  }
  show "pipe E v (JObj kvs) = pipe E v (JObj (put ''max_tokens'' (JInt c) kvs))"
    if "map_of kvs ''max_tokens'' = Some (JInt n) \<and> c < n" for n
  proof -
    have "py_min (JInt c) (max_tokens_limit model_name) =
          py_min (lookup kvs ''max_tokens'' (JInt (max_tokens_limit model_name)))
            (max_tokens_limit model_name)"
      using that by (simp add: l lookup_def py_min_def)
    from pipe_put [OF assms(1,2) this] show ?thesis
      by simp
  qed
  show "pipe E v (JObj kvs) = pipe E v (JObj (put ''max_tokens'' (JInt c) kvs))"
    if "map_of kvs ''max_tokens'' = Some (JFloat r) \<and> of_int c < r" for r
  proof -
    have "py_min (JInt c) (max_tokens_limit model_name) =
          py_min (lookup kvs ''max_tokens'' (JInt (max_tokens_limit model_name)))
            (max_tokens_limit model_name)"
      using that by (simp add: l lookup_def py_min_def)
    from pipe_put [OF assms(1,2) this] show ?thesis
      by simp
  qed
qed

theorem max_tokens_clamped_witness:
  "\<exists>req.
     pipe example_env test_valves (JObj thinking_body) = Inr req \<and>
     map_of thinking_body ''max_tokens'' = Some (JInt 20000) \<and>
     map_of (payload req) ''max_tokens'' = Some (JInt 8192) \<and>
     pipe example_env test_valves (JObj thinking_body) =
       pipe example_env test_valves
         (JObj [(''model'', JStr ''api/claude-3-5-sonnet-latest-thinking''),
                (''messages'', JArr [hi_message]),
                (''max_tokens'', JInt 8192)])"
proof -
  have m: "map_of thinking_body ''model'' = Some (JStr ''api/claude-3-5-sonnet-latest-thinking'')"
    and n: "map_of thinking_body ''max_tokens'' = Some (JInt 20000)"
    by (simp_all add: thinking_body_def)
  have c: "(8192::int) =
      (case map_of MODEL_MAX_TOKENS ''claude-3-5-sonnet-latest'' of
         Some n \<Rightarrow> n | None \<Rightarrow> 4096)"
    by (simp add: MODEL_MAX_TOKENS_def)
  have p: "put ''max_tokens'' (JInt 8192) thinking_body =
      [(''model'', JStr ''api/claude-3-5-sonnet-latest-thinking''),
       (''messages'', JArr [hi_message]),
       (''max_tokens'', JInt 8192)]"
    by (simp add: thinking_body_def)
  obtain req where r: "pipe example_env test_valves (JObj thinking_body) = Inr req"
    using ex_pipe_thinking by blast
  note t = max_tokens_clamped [OF m resolve_thinking_model c, of example_env test_valves req]
  from t r n have 1: "map_of (payload req) ''max_tokens'' = Some (JInt 8192)"
    by simp
  from t n have 2: "pipe example_env test_valves (JObj thinking_body) =
      pipe example_env test_valves (JObj (put ''max_tokens'' (JInt 8192) thinking_body))"
    by simp
  from r n 1 2 show ?thesis
    unfolding p by blast
qed

subsection \<open>Image validation\<close>

lemma scan_item_images:
  assumes "scan_item item acc = Inr acc'"
  shows "acc' = (fst acc + sum_list (map decoded_size (item_image item)),
                 snd acc + length (item_image item))"
proof (cases item)
  case (JObj kvs)
  show ?thesis
  proof (cases "map_of kvs ''type'' = Some (JStr ''image_url'')")
    case False
    then have "dict_get item ''type'' JNull \<noteq> Inr (JStr ''image_url'')"
      using JObj by (auto simp: dict_get_def split: option.splits)
    then have "scan_item item acc = Inr acc"
      using JObj by (auto simp: scan_item_def dict_get_def split: option.splits)
    moreover have "item_image item = []"
      using JObj False by (simp add: item_image_def)
    ultimately show ?thesis using assms by simp
  next
    case True
    then have ty: "dict_get item ''type'' JNull = Inr (JStr ''image_url'')"
      using JObj by (simp add: dict_get_def)
    from assms ty obtain iu where iu: "subscript item ''image_url'' = Inr iu"
      by (cases "subscript item ''image_url''") (simp_all add: scan_item_def)
    from assms ty iu obtain u where u: "subscript iu ''url'' = Inr u"
      by (cases "subscript iu ''url''") (simp_all add: scan_item_def)
    from assms ty iu u obtain url where url: "u = JStr url"
      by (cases u) (simp_all add: scan_item_def)
    from iu JObj have m1: "map_of kvs ''image_url'' = Some iu"
      by (auto simp: subscript_def split: option.splits)
    from u obtain ikv where ikv: "iu = JObj ikv" and m2: "map_of ikv ''url'' = Some u"
      by (cases iu) (auto simp: subscript_def split: option.splits)
    have sc: "scan_item item acc =
        (if startswith url ''data:image'' then
           (case split_once CHR '','' url of
              None \<Rightarrow> Inl UnpackError
            | Some (mime, base64_data) \<Rightarrow>
                Inr (fst acc + of_nat (length base64_data) * 3 / 4, snd acc + 1))
         else Inr acc)"
      using ty iu u url by (simp add: scan_item_def)
    have im: "item_image item =
        (if startswith url ''data:image'' then
           (case split_once CHR '','' url of
              Some (mime, base64_data) \<Rightarrow> [base64_data]
            | None \<Rightarrow> [])
         else [])"
      using JObj True m1 ikv m2 url by (simp add: item_image_def)
    show ?thesis
    proof (cases "startswith url ''data:image''")
      case False
      then show ?thesis using assms sc im by simp
    next
      case True
      note sw = this
      show ?thesis
      proof (cases "split_once CHR '','' url")
        case None
        then show ?thesis using assms sc sw by simp
      next
        case (Some ab)
        then show ?thesis using assms sc im sw
          by (cases ab) (auto simp: decoded_size_def)
      qed
    qed
  qed
qed (use assms in \<open>simp_all add: scan_item_def dict_get_def\<close>)

lemma scan_items_images:
  "scan_items items acc = Inr acc' \<Longrightarrow>
   acc' = (fst acc + sum_list (map decoded_size (concat (map item_image items))),
           snd acc + length (concat (map item_image items)))"
proof (induction items arbitrary: acc)
  case Nil
  then show ?case by simp
next
  case (Cons item items)
  from Cons.prems obtain a where a: "scan_item item acc = Inr a"
    and r: "scan_items items a = Inr acc'"
    by (cases "scan_item item acc") simp_all
  from Cons.IH [OF r] scan_item_images [OF a] show ?case
    by (simp add: algebra_simps)
qed

lemma scan_message_images:
  assumes "scan_message message acc = Inr acc'"
  shows "acc' = (fst acc + sum_list (map decoded_size (message_images message)),
                 snd acc + length (message_images message))"
proof (cases message)
  case (JObj kvs)
  show ?thesis
  proof (cases "map_of kvs ''content''")
    case None
    then show ?thesis using assms JObj
      by (simp add: scan_message_def dict_get_def message_images_def)
  next
    case (Some content)
    show ?thesis
    proof (cases content)
      case (JArr items)
      then have "scan_items items acc = Inr acc'"
        using assms JObj Some by (simp add: scan_message_def dict_get_def)
      from scan_items_images [OF this] show ?thesis
        using JObj Some JArr by (simp add: message_images_def)
    qed (use assms JObj Some in \<open>simp_all add: scan_message_def dict_get_def message_images_def\<close>)
  qed
qed (use assms in \<open>simp_all add: scan_message_def dict_get_def\<close>)

lemma scan_messages_images:
  "scan_messages messages acc = Inr acc' \<Longrightarrow>
   acc' = (fst acc + sum_list (map decoded_size (data_uri_images messages)),
           snd acc + length (data_uri_images messages))"
proof (induction messages arbitrary: acc)
  case Nil
  then show ?case by (simp add: data_uri_images_def)
next
  case (Cons m ms)
  from Cons.prems obtain a where a: "scan_message m acc = Inr a"
    and r: "scan_messages ms a = Inr acc'"
    by (cases "scan_message m acc") simp_all
  from Cons.IH [OF r] scan_message_images [OF a] show ?case
    by (simp add: data_uri_images_def algebra_simps)
qed

lemma scan_messages_totals:
  assumes "scan_messages messages (0, 0) = Inr r"
  shows "r = (total_decoded_size messages, length (data_uri_images messages))"
  using scan_messages_images [OF assms] by (simp add: total_decoded_size_def)

text \<open>
  C7. Let the two loops of \<^verbatim>\<open>validate_total_image_size\<close> get through the message list
  without an exception. If the decoded sizes of its data-URI images add up to more
  than \<open>TOTAL_MAX_IMAGE_SIZE\<close> (100 MB), validation raises the error that carries that
  total, however small each image is; if the total is within the ceiling and there are
  more than 100 data-URI images, it raises the error that carries their number. In
  both cases \<^verbatim>\<open>pipe\<close> returns an error reply before any request is sent (validation
  is the first step after \<^verbatim>\<open>pop_system_message\<close>).
\<close>

theorem oversized_image_total_rejected:
  assumes "scan_messages messages (0, 0) = Inr r"
  shows "(TOTAL_MAX_IMAGE_SIZE < total_decoded_size messages \<longrightarrow>
            validate_total_image_size messages =
              Inl (TotalImageSizeError (total_decoded_size messages)) \<and>
            (\<exists>e. pipe_prepare E v body system_message messages = Inl e)) \<and>
         (total_decoded_size messages \<le> TOTAL_MAX_IMAGE_SIZE \<and>
          MAX_IMAGES_PER_REQUEST < length (data_uri_images messages) \<longrightarrow>
            validate_total_image_size messages =
              Inl (TooManyImagesError (length (data_uri_images messages))) \<and>
            (\<exists>e. pipe_prepare E v body system_message messages = Inl e))"
  using assms scan_messages_totals [OF assms]
  by (auto simp: validate_total_image_size_def pipe_prepare_def pipe_try_def)

lemma scan_png_item:
  "scan_item (image_item (png_uri b)) acc =
     Inr (fst acc + of_nat (length b) * 3 / 4, snd acc + 1)"
  by (simp add: scan_item_def image_item_def png_uri_def dict_get_def subscript_def
      startswith_def)

lemma scan_png_items:
  "scan_items (replicate n (image_item (png_uri b))) acc =
     Inr (fst acc + of_nat n * (of_nat (length b) * 3 / 4), snd acc + n)"
proof (induction n arbitrary: acc)
  case 0
  then show ?case by simp
next
  case (Suc n)
  show ?case
    by (simp add: scan_png_item Suc.IH algebra_simps)
qed

lemma scan_large_images: "scan_messages large_images (0, 0) = Inr (110092500, 21)"
  by (simp add: large_images_def user_message_def scan_message_def dict_get_def
      scan_item_def scan_png_items)

lemma scan_many_images: "scan_messages many_images (0, 0) = Inr (303, 101)"
  by (simp add: many_images_def user_message_def scan_message_def dict_get_def
      scan_png_items)

theorem oversized_image_total_rejected_witness:
  "decoded_size (replicate 6990000 (CHR ''A'')) \<le> MAX_IMAGE_SIZE \<and>
   total_decoded_size large_images = 110092500 \<and>
   TOTAL_MAX_IMAGE_SIZE < total_decoded_size large_images \<and>
   validate_total_image_size large_images = Inl (TotalImageSizeError 110092500) \<and>
   (\<exists>e. pipe_prepare example_env test_valves
           (JObj [(''model'', JStr ''api/claude-sonnet-4-0'')]) JNull large_images = Inl e) \<and>
   length (data_uri_images many_images) = 101 \<and>
   validate_total_image_size many_images = Inl (TooManyImagesError 101) \<and>
   (\<exists>e. pipe_prepare example_env test_valves
           (JObj [(''model'', JStr ''api/claude-sonnet-4-0'')]) JNull many_images = Inl e)"
proof -
  have l: "total_decoded_size large_images = 110092500"
      "length (data_uri_images large_images) = 21"
    using scan_messages_totals [OF scan_large_images] by simp_all
  have m: "total_decoded_size many_images = 303"
      "length (data_uri_images many_images) = 101"
    using scan_messages_totals [OF scan_many_images] by simp_all
  have s: "decoded_size (replicate 6990000 (CHR ''A'')) \<le> MAX_IMAGE_SIZE"
    by (simp add: decoded_size_def MAX_IMAGE_SIZE_def)
  show ?thesis
    using oversized_image_total_rejected [OF scan_large_images]
      oversized_image_total_rejected [OF scan_many_images] l m s
    by (simp add: TOTAL_MAX_IMAGE_SIZE_def MAX_IMAGES_PER_REQUEST_def)
qed

section \<open>Properties of the retry wrapper\<close>

lemma send_loop_retry:
  assumes "retry_count < 3" and "rate_limited E (net retry_count) retry_count"
  shows "send_loop E net retry_count slept =
         send_loop E net (Suc retry_count) (slept @ [retry_delay E (net retry_count) retry_count])"
proof -
  from assms(2) obtain r where r: "net retry_count = Responds r" "resp_status r = 429"
    by (cases "net retry_count") (simp_all add: rate_limited_def)
  from assms(2) r obtain d where
    d: "retry_after_of E r retry_count = Inr d" "sleep E d = None"
    by (cases "retry_after_of E r retry_count") (simp_all add: rate_limited_def)
  show ?thesis
    using assms(1) r d
    by (subst send_loop.simps) (simp add: retry_delay_def)
qed

lemma send_loop_exhausted:
  "send_loop E net 3 slept =
     \<lparr>outcome = Inr \<lparr>status_code = 429, wrapper_headers = [],
                     wrapper_text = ''Max retries exceeded''\<rparr>,
      sleeps = slept, posts = 3\<rparr>"
  by (subst send_loop.simps) simp

lemma send_loop_raises:
  assumes "retry_count < 3" and "net retry_count = Raises e"
  shows "send_loop E net retry_count slept =
         \<lparr>outcome = Inl e, sleeps = slept, posts = retry_count + 1\<rparr>"
  using assms by (subst send_loop.simps) simp

lemma send_loop_answer:
  assumes "retry_count < 3" and "net retry_count = Responds r" and "resp_status r \<noteq> 429"
  shows "send_loop E net retry_count slept =
         \<lparr>outcome =
            (case resp_text r of
               Inl e \<Rightarrow> Inl e
             | Inr t \<Rightarrow> Inr \<lparr>status_code = resp_status r, wrapper_headers = resp_headers r,
                             wrapper_text = t\<rparr>),
          sleeps = slept, posts = retry_count + 1\<rparr>"
  using assms by (subst send_loop.simps) (simp split: sum.splits)

text \<open>
  A 429 whose delay \<^verbatim>\<open>int()\<close> or \<^verbatim>\<open>asyncio.sleep\<close> rejects ends the loop with that
  exception.
\<close>

lemma send_loop_delay_raises:
  assumes "retry_count < 3" and "net retry_count = Responds r" and "resp_status r = 429"
    and "retry_after_of E r retry_count = Inl e \<or>
         (\<exists>d. retry_after_of E r retry_count = Inr d \<and> sleep E d = Some e)"
  shows "send_loop E net retry_count slept =
         \<lparr>outcome = Inl e, sleeps = slept, posts = retry_count + 1\<rparr>"
  using assms by (subst send_loop.simps) auto

text \<open>The loop makes at most three POSTs, whatever the network and the environment do.\<close>

lemma send_loop_posts:
  "retry_count \<le> 3 \<Longrightarrow> posts (send_loop E net retry_count slept) \<le> 3"
proof (induction E net retry_count slept rule: send_loop.induct)
  case (1 E net retry_count slept)
  show ?case
  proof (cases "retry_count < 3")
    case False
    then show ?thesis using "1.prems" by (subst send_loop.simps) simp
  next
    case True
    note lt = this
    show ?thesis
    proof (cases "net retry_count")
      case (Raises e)
      then show ?thesis using lt by (simp add: send_loop_raises)
    next
      case (Responds r)
      note r = this
      show ?thesis
      proof (cases "resp_status r = 429")
        case False
        then show ?thesis using lt r by (simp add: send_loop_answer)
      next
        case True
        note s = this
        show ?thesis
        proof (cases "retry_after_of E r retry_count")
          case (Inl e)
          then show ?thesis
            using lt r s by (simp add: send_loop_delay_raises)
        next
          case (Inr d)
          note d = this
          show ?thesis
          proof (cases "sleep E d")
            case (Some e)
            then show ?thesis
              using lt r s d by (simp add: send_loop_delay_raises)
          next
            case None
            from "1.IH" [OF lt r s d None] lt have
              "posts (send_loop E net (retry_count + 1) (slept @ [d])) \<le> 3"
              by simp
            then show ?thesis
              using lt r s d None by (subst send_loop.simps) simp
          qed
        qed
      qed
    qed
  qed
qed

lemma send_loop_after_retries:
  "k \<le> 3 \<Longrightarrow> \<forall>i<k. rate_limited E (net i) i \<Longrightarrow>
   send_loop E net 0 [] = send_loop E net k (map (\<lambda>i. retry_delay E (net i) i) [0..<k])"
proof (induction k)
  case 0
  then show ?case by simp
next
  case (Suc k)
  then have "send_loop E net 0 [] =
             send_loop E net k (map (\<lambda>i. retry_delay E (net i) i) [0..<k])"
    by simp
  also have "\<dots> = send_loop E net (Suc k)
                    (map (\<lambda>i. retry_delay E (net i) i) [0..<k] @ [retry_delay E (net k) k])"
    using Suc.prems by (intro send_loop_retry) simp_all
  finally show ?case by simp
qed

text \<open>
  What the sender does on the answers it is written for. It makes at most three
  POSTs. While the answers are 429 answers with a delay that \<^verbatim>\<open>int()\<close> and
  \<^verbatim>\<open>asyncio.sleep\<close> accept, it sleeps after answer number \<open>i\<close> for the header's value,
  or for \<open>1 * 2^i\<close> seconds when there is no header, and posts again. After \<open>k < 3\<close>
  such answers an exception of the next POST propagates at once, and an answer that is
  not a 429 is returned. After three such answers the result is the response object
  with status 429, no headers and the text \<^verbatim>\<open>Max retries exceeded\<close>, and no fourth
  POST is made.
\<close>

lemma send_request_retry_policy:
  "posts (send_request E net) \<le> 3 \<and>
   (\<forall>k e. k < 3 \<and> (\<forall>i<k. rate_limited E (net i) i) \<and> net k = Raises e \<longrightarrow>
      send_request E net =
        \<lparr>outcome = Inl e, sleeps = map (\<lambda>i. retry_delay E (net i) i) [0..<k],
         posts = k + 1\<rparr>) \<and>
   (\<forall>k r t. k < 3 \<and> (\<forall>i<k. rate_limited E (net i) i) \<and> net k = Responds r \<and>
        resp_status r \<noteq> 429 \<and> resp_text r = Inr t \<longrightarrow>
      send_request E net =
        \<lparr>outcome = Inr \<lparr>status_code = resp_status r, wrapper_headers = resp_headers r,
                        wrapper_text = t\<rparr>,
         sleeps = map (\<lambda>i. retry_delay E (net i) i) [0..<k], posts = k + 1\<rparr>) \<and>
   ((\<forall>i<3. rate_limited E (net i) i) \<longrightarrow>
      send_request E net =
        \<lparr>outcome = Inr \<lparr>status_code = 429, wrapper_headers = [],
                        wrapper_text = ''Max retries exceeded''\<rparr>,
         sleeps = [retry_delay E (net 0) 0, retry_delay E (net 1) 1, retry_delay E (net 2) 2],
         posts = 3\<rparr>)"
proof (intro conjI allI impI)
  show "posts (send_request E net) \<le> 3"
    unfolding send_request_def by (rule send_loop_posts) simp
next
  fix k e
  assume a: "k < 3 \<and> (\<forall>i<k. rate_limited E (net i) i) \<and> net k = Raises e"
  then have "send_loop E net 0 [] =
             send_loop E net k (map (\<lambda>i. retry_delay E (net i) i) [0..<k])"
    by (intro send_loop_after_retries) simp_all
  then show "send_request E net =
        \<lparr>outcome = Inl e, sleeps = map (\<lambda>i. retry_delay E (net i) i) [0..<k],
         posts = k + 1\<rparr>"
    using a by (simp add: send_request_def send_loop_raises)
next
  fix k r t
  assume a: "k < 3 \<and> (\<forall>i<k. rate_limited E (net i) i) \<and> net k = Responds r \<and>
        resp_status r \<noteq> 429 \<and> resp_text r = Inr t"
  then have "send_loop E net 0 [] =
             send_loop E net k (map (\<lambda>i. retry_delay E (net i) i) [0..<k])"
    by (intro send_loop_after_retries) simp_all
  then show "send_request E net =
        \<lparr>outcome = Inr \<lparr>status_code = resp_status r, wrapper_headers = resp_headers r,
                        wrapper_text = t\<rparr>,
         sleeps = map (\<lambda>i. retry_delay E (net i) i) [0..<k], posts = k + 1\<rparr>"
    using a by (simp add: send_request_def send_loop_answer)
next
  assume a: "\<forall>i<3. rate_limited E (net i) i"
  have u: "[0..<3] = [0, 1, 2]"
    by (simp add: upt_rec)
  from a have "send_loop E net 0 [] =
             send_loop E net 3 (map (\<lambda>i. retry_delay E (net i) i) [0..<3])"
    by (intro send_loop_after_retries) simp_all
  then show "send_request E net =
        \<lparr>outcome = Inr \<lparr>status_code = 429, wrapper_headers = [],
                        wrapper_text = ''Max retries exceeded''\<rparr>,
         sleeps = [retry_delay E (net 0) 0, retry_delay E (net 1) 1, retry_delay E (net 2) 2],
         posts = 3\<rparr>"
    by (simp add: send_request_def send_loop_exhausted u)
qed

lemma sleep_examples:
  "sleep example_env 1 = None" "sleep example_env 2 = None" "sleep example_env 4 = None"
  "sleep example_env (10 ^ 400) = Some OverflowError"
  by (simp_all add: example_env_def example_sleep_def)

lemma rate_limited_examples:
  "rate_limited example_env (limited_then_ok 0) 0"
  "rate_limited example_env (always_limited 0) 0"
  "rate_limited example_env (always_limited 1) 1"
  "rate_limited example_env (always_limited (Suc 0)) (Suc 0)"
  "rate_limited example_env (always_limited 2) 2"
  "rate_limited example_env (limited_then_down 0) 0"
  by (simp_all add: rate_limited_def retry_after_of_def limited_then_ok_def always_limited_def
      limited_then_down_def sleep_examples)
    (simp_all add: example_env_def example_int_def example_sleep_def)

lemma retry_delay_examples:
  "retry_delay example_env (limited_then_ok 0) 0 = 2"
  "retry_delay example_env (always_limited 0) 0 = 2"
  "retry_delay example_env (always_limited 1) 1 = 2"
  "retry_delay example_env (always_limited (Suc 0)) (Suc 0) = 2"
  "retry_delay example_env (always_limited 2) 2 = 4"
  "retry_delay example_env (limited_then_down 0) 0 = 1"
  by (simp_all add: retry_delay_def retry_after_of_def limited_then_ok_def always_limited_def
      limited_then_down_def example_env_def example_int_def)

text \<open>
  The example of the specification: a 429 with \<^verbatim>\<open>retry-after: 2\<close> gives one sleep of
  two seconds before the second POST, and three 429 answers give the response object
  without a fourth POST.
\<close>

lemma send_request_examples:
  "send_request example_env limited_then_ok =
     \<lparr>outcome = Inr \<lparr>status_code = 200, wrapper_headers = [(''x-request-id'', ''req_1'')],
                     wrapper_text = ''{}''\<rparr>,
      sleeps = [2], posts = 2\<rparr> \<and>
   send_request example_env limited_then_down =
     \<lparr>outcome = Inl (ClientError ''Cannot connect to host''), sleeps = [1], posts = 2\<rparr> \<and>
   send_request example_env always_limited =
     \<lparr>outcome = Inr \<lparr>status_code = 429, wrapper_headers = [],
                     wrapper_text = ''Max retries exceeded''\<rparr>,
      sleeps = [2, 2, 4], posts = 3\<rparr>"
proof (intro conjI)
  have u: "[0..<Suc 0] = [0]"
    by simp
  have ok: "limited_then_ok 1 =
      Responds \<lparr>resp_status = 200, resp_headers = [(''x-request-id'', ''req_1'')],
                resp_text = Inr ''{}''\<rparr>"
    by (simp add: limited_then_ok_def)
  from send_request_retry_policy [of example_env limited_then_ok]
  have "\<forall>k r t. k < 3 \<and> (\<forall>i<k. rate_limited example_env (limited_then_ok i) i) \<and>
          limited_then_ok k = Responds r \<and> resp_status r \<noteq> 429 \<and> resp_text r = Inr t \<longrightarrow>
        send_request example_env limited_then_ok =
          \<lparr>outcome = Inr \<lparr>status_code = resp_status r, wrapper_headers = resp_headers r,
                          wrapper_text = t\<rparr>,
           sleeps = map (\<lambda>i. retry_delay example_env (limited_then_ok i) i) [0..<k],
           posts = k + 1\<rparr>"
    by blast
  from this [rule_format, of 1, OF conjI [OF _ conjI [OF _ conjI [OF ok]]]]
  show "send_request example_env limited_then_ok =
     \<lparr>outcome = Inr \<lparr>status_code = 200, wrapper_headers = [(''x-request-id'', ''req_1'')],
                     wrapper_text = ''{}''\<rparr>,
      sleeps = [2], posts = 2\<rparr>"
    by (simp add: rate_limited_examples retry_delay_examples u)
next
  have u: "[0..<Suc 0] = [0]"
    by simp
  have down: "limited_then_down 1 = Raises (ClientError ''Cannot connect to host'')"
    by (simp add: limited_then_down_def)
  from send_request_retry_policy [of example_env limited_then_down]
  have "\<forall>k e. k < 3 \<and> (\<forall>i<k. rate_limited example_env (limited_then_down i) i) \<and>
          limited_then_down k = Raises e \<longrightarrow>
        send_request example_env limited_then_down =
          \<lparr>outcome = Inl e,
           sleeps = map (\<lambda>i. retry_delay example_env (limited_then_down i) i) [0..<k],
           posts = k + 1\<rparr>"
    by blast
  from this [rule_format, of 1, OF conjI [OF _ conjI [OF _ down]]]
  show "send_request example_env limited_then_down =
     \<lparr>outcome = Inl (ClientError ''Cannot connect to host''), sleeps = [1], posts = 2\<rparr>"
    by (simp add: rate_limited_examples retry_delay_examples u)
next
  have a: "\<forall>i<3. rate_limited example_env (always_limited i) i"
  proof (intro allI impI)
    fix i :: nat
    assume "i < 3"
    then consider "i = 0" | "i = 1" | "i = 2"
      by linarith
    then show "rate_limited example_env (always_limited i) i"
      by cases (simp_all add: rate_limited_examples)
  qed
  from send_request_retry_policy [of example_env always_limited] a
  have "send_request example_env always_limited =
        \<lparr>outcome = Inr \<lparr>status_code = 429, wrapper_headers = [],
                        wrapper_text = ''Max retries exceeded''\<rparr>,
         sleeps = [retry_delay example_env (always_limited 0) 0,
                   retry_delay example_env (always_limited 1) 1,
                   retry_delay example_env (always_limited 2) 2],
         posts = 3\<rparr>"
    by blast
  then show "send_request example_env always_limited =
     \<lparr>outcome = Inr \<lparr>status_code = 429, wrapper_headers = [],
                     wrapper_text = ''Max retries exceeded''\<rparr>,
      sleeps = [2, 2, 4], posts = 3\<rparr>"
    by (simp add: retry_delay_examples)
qed

text \<open>
  C4. Every answer of the network \<open>limited_with_date\<close> is a 429 with a
  \<^verbatim>\<open>retry-after\<close> header, here an HTTP date. The sender should sleep, post again, and
  after three answers return the response object for \<^verbatim>\<open>Max retries exceeded\<close>.
  Instead \<^verbatim>\<open>int()\<close> rejects the header with ValueError, which is raised out of the
  sender after the first POST: no sleep, no second POST, and an exception where a
  response object was promised. The same happens with a header that is a number too
  large for \<^verbatim>\<open>asyncio.sleep\<close>, which raises OverflowError.
\<close>

theorem retry_after_date_raises:
  "send_request example_env limited_with_date =
     \<lparr>outcome = Inl (IntLiteralError ''Wed, 21 Oct 2015 07:28:00 GMT''), sleeps = [],
      posts = 1\<rparr> \<and>
   send_request example_env limited_with_huge =
     \<lparr>outcome = Inl OverflowError, sleeps = [], posts = 1\<rparr>"
proof
  show "send_request example_env limited_with_date =
     \<lparr>outcome = Inl (IntLiteralError ''Wed, 21 Oct 2015 07:28:00 GMT''), sleeps = [],
      posts = 1\<rparr>"
    unfolding send_request_def
    by (subst send_loop.simps)
      (simp add: limited_with_date_def retry_after_of_def example_env_def example_int_def)
next
  define r where
    "r = \<lparr>resp_status = 429,
          resp_headers = [(''retry-after'', CHR ''1'' # replicate 400 (CHR ''0''))],
          resp_text = Inr ''rate limited''\<rparr>"
  have ra: "retry_after_of example_env r 0 = Inr (10 ^ 400)"
    by (simp add: r_def retry_after_of_def example_env_def example_int_def)
  have "send_loop example_env limited_with_huge 0 [] =
          \<lparr>outcome = Inl OverflowError, sleeps = [], posts = 0 + 1\<rparr>"
  proof (rule send_loop_delay_raises)
    show "(0::nat) < 3"
      by simp
    show "limited_with_huge 0 = Responds r"
      by (simp add: limited_with_huge_def r_def)
    show "resp_status r = 429"
      by (simp add: r_def)
    show "retry_after_of example_env r 0 = Inl OverflowError \<or>
          (\<exists>d. retry_after_of example_env r 0 = Inr d \<and> sleep example_env d = Some OverflowError)"
      using ra sleep_examples(4) by blast
  qed
  then show "send_request example_env limited_with_huge =
     \<lparr>outcome = Inl OverflowError, sleeps = [], posts = 1\<rparr>"
    by (simp add: send_request_def)
qed

end
